theory Spec2Isabelle
  imports Complex_Main "HOL-Library.Log_Nat"
begin

section \<open>Flash-sale purchase path: rate limiter and inventory transaction\<close>

text \<open>
  The development embeds three source files:
  \<^item> \<^verbatim>\<open>src/unnamed/part_000\<close> (the module \<^verbatim>\<open>lib/redis\<close>): \<open>getRedisClient\<close>;
  \<^item> \<^verbatim>\<open>src/lib/rateLimit.ts\<close>: \<open>checkRateLimit\<close> and \<open>rateLimitMiddleware\<close>;
  \<^item> \<^verbatim>\<open>src/app/api/purchase/route.ts\<close>: the handler \<open>POST\<close>.

  Every handler run is sequential: one call is evaluated from its first statement to its
  response before the next one starts. The two external stores (Redis and PostgreSQL)
  are explicit state. What a store does with the values of a request is part of the
  model (the column types of \<^verbatim>\<open>src/lib/db.ts\<close> decide which statements PostgreSQL
  refuses); whether an operation fails for a reason outside the request (a lost
  connection) is an input of the call.
\<close>

subsection \<open>JavaScript values of the request\<close>

text \<open>
  A field of the JSON body is \<open>None\<close> when the key is absent (\<^verbatim>\<open>undefined\<close> after
  destructuring). The body type follows the request interface
  \<^verbatim>\<open>{ productId: number, userId: string, quantity?: number }\<close>; numbers are
  integers. \<^verbatim>\<open>!v\<close> holds for an absent field, for the number 0 and for the empty string.
  A JSON integer beyond \<open>2\<^sup>5\<^sup>3\<close> reaches the handler rounded to a double; the handler
  answers such a \<open>productId\<close> or \<open>quantity\<close> as it answers the integer itself, because both
  lie outside every \<^verbatim>\<open>INTEGER\<close> column and on the same side of every stock.
\<close>

definition truthy_int :: "int option \<Rightarrow> bool" where
  "truthy_int v = (case v of None \<Rightarrow> False | Some n \<Rightarrow> n \<noteq> 0)"

definition truthy_str :: "string option \<Rightarrow> bool" where
  "truthy_str v = (case v of None \<Rightarrow> False | Some s \<Rightarrow> s \<noteq> [])"

text \<open>\<^verbatim>\<open>a || d\<close> where \<open>a\<close> is a string, \<^verbatim>\<open>null\<close> or \<^verbatim>\<open>undefined\<close> and \<open>d\<close> is a string.\<close>

fun js_or :: "string option \<Rightarrow> string \<Rightarrow> string" where
  "js_or None d = d"
| "js_or (Some s) d = (if s = [] then d else s)"

text \<open>\<^verbatim>\<open>s.split(',')[0]\<close>: the text before the first comma.\<close>

definition split_first :: "string \<Rightarrow> string" where
  "split_first s = takeWhile (\<lambda>c. c \<noteq> CHR '','') s"

record purchase_body =
  productId :: "int option"
  userId :: "string option"
  quantity :: "int option"

text \<open>
  \<open>body = None\<close>: \<^verbatim>\<open>req.json()\<close> rejects, or yields \<^verbatim>\<open>null\<close> so that the
  destructuring throws. \<open>query_userId\<close> is \<^verbatim>\<open>req.nextUrl.searchParams.get('userId')\<close>;
  the two header fields are \<^verbatim>\<open>req.headers.get(...)\<close>.
\<close>

record http_request =
  body :: "purchase_body option"
  query_userId :: "string option"
  x_forwarded_for :: "string option"
  x_real_ip :: "string option"

subsection \<open>Responses\<close>

record order_json =
  oj_id :: nat
  oj_productId :: int
  oj_productName :: string
  oj_quantity :: int
  oj_totalPrice :: rat
  oj_remainingStock :: int

text \<open>
  \<open>headers\<close> holds the numbers the source renders with \<^verbatim>\<open>String(...)\<close>;
  \<^verbatim>\<open>createdAt\<close> of the order payload is a wall-clock value and is left out.
\<close>

record response =
  status :: nat
  success :: bool
  message :: string
  order_field :: "order_json option"
  headers :: "(string \<times> int) list"

definition json_response :: "nat \<Rightarrow> bool \<Rightarrow> string \<Rightarrow> response" where
  "json_response st ok msg =
     \<lparr>status = st, success = ok, message = msg, order_field = None, headers = []\<rparr>"

datatype exn = ConnectError | DatabaseError

subsection \<open>The counter store\<close>

text \<open>
  Modelled from the spec: the Atomic Counter Store (Redis, external to the repository)
  with the three primitives of section 6: atomic increment returning the post-increment
  value, set-expiry, get-remaining-TTL; a counter is created on its first hit, carries
  a count and a time-to-live, and expires by itself (section 3).
  Time is in milliseconds. \<open>expiry\<close> is the absolute deadline of the key. A key whose
  deadline has passed is absent. TTL answers in whole seconds, rounded to the nearest,
  \<open>-1\<close> for a key without deadline and \<open>-2\<close> for an absent key; set-expiry with a
  non-positive number of seconds removes the key.
\<close>

record counter =
  cnt :: int
  expiry :: "nat option"

type_synonym kvstore = "string \<Rightarrow> counter option"

definition live :: "nat \<Rightarrow> counter option \<Rightarrow> counter option" where
  "live now e =
     (case e of
        None \<Rightarrow> None
      | Some c \<Rightarrow>
          (case expiry c of
             None \<Rightarrow> Some c
           | Some d \<Rightarrow> if now < d then Some c else None))"

definition redis_incr :: "nat \<Rightarrow> kvstore \<Rightarrow> string \<Rightarrow> int \<times> kvstore" where
  "redis_incr now s k =
     (case live now (s k) of
        None \<Rightarrow> (1, s(k \<mapsto> \<lparr>cnt = 1, expiry = None\<rparr>))
      | Some c \<Rightarrow> (cnt c + 1, s(k \<mapsto> c\<lparr>cnt := cnt c + 1\<rparr>)))"

definition redis_expire :: "nat \<Rightarrow> kvstore \<Rightarrow> string \<Rightarrow> int \<Rightarrow> kvstore" where
  "redis_expire now s k secs =
     (case live now (s k) of
        None \<Rightarrow> s
      | Some c \<Rightarrow>
          if secs \<le> 0 then s(k := None)
          else s(k \<mapsto> c\<lparr>expiry := Some (now + nat secs * 1000)\<rparr>))"

definition redis_ttl :: "nat \<Rightarrow> kvstore \<Rightarrow> string \<Rightarrow> int" where
  "redis_ttl now s k =
     (case live now (s k) of
        None \<Rightarrow> - 2
      | Some c \<Rightarrow>
          (case expiry c of
             None \<Rightarrow> - 1
           | Some d \<Rightarrow> int ((d - now + 500) div 1000)))"

text \<open>
  \<open>redisClient\<close> is the module variable of \<^verbatim>\<open>lib/redis\<close> (\<open>False\<close> for
  \<^verbatim>\<open>null\<close>); \<open>kv\<close> is the content of the store.
\<close>

record redis =
  redisClient :: bool
  kv :: kvstore

text \<open>
  Which awaited store operations reject during one call of \<open>checkRateLimit\<close>. A rejected
  operation leaves the store as it was.
\<close>

record redis_faults =
  connect_fails :: bool
  incr_fails :: bool
  expire_fails :: bool
  ttl_fails :: bool

definition no_redis_faults :: redis_faults where
  "no_redis_faults =
     \<lparr>connect_fails = False, incr_fails = False, expire_fails = False, ttl_fails = False\<rparr>"

text \<open>
  \<open>getRedisClient\<close> (\<^verbatim>\<open>src/unnamed/part_000\<close>, lines 5-17): the variable is assigned
  before \<^verbatim>\<open>await redisClient.connect()\<close>, so it stays set when the connect rejects.
\<close>

definition getRedisClient :: "redis_faults \<Rightarrow> redis \<Rightarrow> (exn + unit) \<times> redis" where
  "getRedisClient f r =
     (if \<not> redisClient r then
        (let r' = r\<lparr>redisClient := True\<rparr>
         in if connect_fails f then (Inl ConnectError, r') else (Inr (), r'))
      else (Inr (), r))"

subsection \<open>\<open>checkRateLimit\<close> (\<^verbatim>\<open>src/lib/rateLimit.ts\<close>, lines 10-39)\<close>

record options =
  maxRequests :: int
  windowMs :: int
  ident :: string

record rate_result =
  allowed :: bool
  retryAfter :: "int option"

text \<open>\<^verbatim>\<open>Math.ceil(windowMs / 1000)\<close> on an integer number of milliseconds.\<close>

definition window_seconds :: "int \<Rightarrow> int" where
  "window_seconds w = - ((- w) div 1000)"

definition rate_key :: "string \<Rightarrow> string" where
  "rate_key i = ''rate_limit:'' @ i"

definition allow :: rate_result where
  "allow = \<lparr>allowed = True, retryAfter = None\<rparr>"

text \<open>
  Line 14 awaits \<open>getRedisClient\<close> before the \<^verbatim>\<open>try\<close> of line 17 opens; the \<^verbatim>\<open>catch\<close>
  of lines 34-38 covers \<^verbatim>\<open>incr\<close>, \<^verbatim>\<open>expire\<close> and \<^verbatim>\<open>ttl\<close> only.
\<close>

definition checkRateLimit ::
  "nat \<Rightarrow> redis_faults \<Rightarrow> options \<Rightarrow> redis \<Rightarrow> (exn + rate_result) \<times> redis" where
  "checkRateLimit now f opts r =
     (case getRedisClient f r of
        (Inl e, r1) \<Rightarrow> (Inl e, r1)
      | (Inr _, r1) \<Rightarrow>
          (let key = rate_key (ident opts) in
           if incr_fails f then (Inr allow, r1)
           else
             (let (current, kv1) = redis_incr now (kv r1) key in
              if current = 1 \<and> expire_fails f then (Inr allow, r1\<lparr>kv := kv1\<rparr>)
              else
                (let kv2 = (if current = 1
                            then redis_expire now kv1 key (window_seconds (windowMs opts))
                            else kv1);
                     r2 = r1\<lparr>kv := kv2\<rparr>
                 in if current > maxRequests opts then
                      (if ttl_fails f then (Inr allow, r2)
                       else
                         (let ttl = redis_ttl now kv2 key
                          in (Inr \<lparr>allowed = False,
                                   retryAfter = Some (if ttl > 0 then ttl
                                                      else window_seconds (windowMs opts))\<rparr>,
                              r2)))
                    else (Inr allow, r2)))))"

subsection \<open>\<open>rateLimitMiddleware\<close> (\<^verbatim>\<open>src/lib/rateLimit.ts\<close>, lines 41-98)\<close>

definition finalUserId :: "http_request \<Rightarrow> string option \<Rightarrow> string" where
  "finalUserId req uid = js_or uid (js_or (query_userId req) ''anonymous'')"

definition client_ip :: "http_request \<Rightarrow> string" where
  "client_ip req =
     js_or (map_option split_first (x_forwarded_for req)) (js_or (x_real_ip req) ''unknown'')"

definition user_identifier :: "http_request \<Rightarrow> string option \<Rightarrow> string" where
  "user_identifier req uid = ''user:'' @ finalUserId req uid"

definition ip_identifier :: "http_request \<Rightarrow> string" where
  "ip_identifier req = ''ip:'' @ client_ip req"

definition ip_maxRequests :: int where
  "ip_maxRequests = 10"

definition ip_windowMs :: int where
  "ip_windowMs = 60000"

text \<open>\<^verbatim>\<open>retryAfter || 60\<close>: an absent or zero value becomes 60.\<close>

definition retry_or_60 :: "int option \<Rightarrow> int" where
  "retry_or_60 v = (case v of None \<Rightarrow> 60 | Some n \<Rightarrow> if n = 0 then 60 else n)"

definition too_many :: "string \<Rightarrow> int option \<Rightarrow> int \<Rightarrow> response" where
  "too_many msg ra lmt =
     \<lparr>status = 429, success = False, message = msg, order_field = None,
      headers = [(''Retry-After'', retry_or_60 ra), (''X-RateLimit-Limit'', lmt),
                 (''X-RateLimit-Remaining'', 0)]\<rparr>"

text \<open>
  The result is \<open>Inr None\<close> for \<^verbatim>\<open>null\<close> (no violation), \<open>Inr (Some resp)\<close> for a 429
  response and \<open>Inl e\<close> when a \<open>checkRateLimit\<close> call throws. \<open>fu\<close> and \<open>fi\<close> are the
  faults of the user-tier and of the IP-tier call.
\<close>

definition rateLimitMiddleware ::
  "nat \<Rightarrow> redis_faults \<Rightarrow> redis_faults \<Rightarrow> http_request \<Rightarrow> int \<Rightarrow> int \<Rightarrow> string option
     \<Rightarrow> redis \<Rightarrow> (exn + response option) \<times> redis" where
  "rateLimitMiddleware now fu fi req maxReq winMs uid r =
     (case checkRateLimit now fu
             \<lparr>maxRequests = maxReq, windowMs = winMs, ident = user_identifier req uid\<rparr> r of
        (Inl e, r1) \<Rightarrow> (Inl e, r1)
      | (Inr userLimit, r1) \<Rightarrow>
          if \<not> allowed userLimit then
            (Inr (Some (too_many ''Rate limit exceeded for user'' (retryAfter userLimit) maxReq)),
             r1)
          else
            (case checkRateLimit now fi
                    \<lparr>maxRequests = ip_maxRequests, windowMs = ip_windowMs,
                     ident = ip_identifier req\<rparr> r1 of
               (Inl e, r2) \<Rightarrow> (Inl e, r2)
             | (Inr ipLimit, r2) \<Rightarrow>
                 if \<not> allowed ipLimit then
                   (Inr (Some (too_many ''Rate limit exceeded for IP'' (retryAfter ipLimit)
                                 ip_maxRequests)), r2)
                 else (Inr None, r2)))"

subsection \<open>JavaScript numbers\<close>

text \<open>
  A JavaScript number is an IEEE 754 binary64 value; here it is the rational it denotes.
  \<open>fl64\<close> rounds a rational to the nearest value with a 53-bit significand, ties to the
  even significand: this is what \<^verbatim>\<open>parseFloat\<close> does to a decimal string and what \<^verbatim>\<open>*\<close>
  does to the exact product of its operands. The exponent range of binary64 is not
  modelled: the numbers that the handler multiplies are a price with two decimals and
  a quantity that an \<^verbatim>\<open>INTEGER\<close> column has just accepted a stock for, far from overflow
  and underflow.
\<close>

text \<open>Round to the nearest integer, ties to even.\<close>

definition rne :: "rat \<Rightarrow> int" where
  "rne x =
     (let f = \<lfloor>x\<rfloor>; r = x - of_int f
      in if r < 1 / 2 then f else if 1 / 2 < r then f + 1 else if even f then f else f + 1)"

text \<open>The binary exponent \<open>\<lfloor>log\<^sub>2 |x|\<rfloor>\<close> of a rational other than 0.\<close>

definition binexp :: "rat \<Rightarrow> int" where
  "binexp x =
     (let (n, d) = quotient_of x; e = bitlen \<bar>n\<bar> - bitlen d
      in if 2 powi e \<le> \<bar>x\<bar> then e else e - 1)"

definition fl64 :: "rat \<Rightarrow> rat" where
  "fl64 x =
     (if x = 0 then 0
      else of_int (rne (x / 2 powi (binexp x - 52))) * 2 powi (binexp x - 52))"

text \<open>
  \<^verbatim>\<open>parseFloat(product.price) * quantity\<close> (lines 46 and 64): \<^verbatim>\<open>pg\<close> hands a
  \<^verbatim>\<open>DECIMAL(10, 2)\<close> value over as its decimal string; \<open>cents\<close> is that value in
  hundredths. The quantity is an integer that is exact as a double.
\<close>

definition js_price_times :: "int \<Rightarrow> int \<Rightarrow> rat" where
  "js_price_times cents q = fl64 (fl64 (of_int cents / 100) * of_int q)"

text \<open>
  \<^verbatim>\<open>Number.prototype.toString\<close>, which \<^verbatim>\<open>pg\<close> applies to a number passed as a query
  parameter: the decimal with the fewest significant digits, at most 17, that reads
  back as the same double, taken nearest to the double. \<open>declen\<close> counts the decimal
  digits of a positive integer and \<open>decexp\<close> is the decimal exponent \<open>\<lfloor>log\<^sub>1\<^sub>0 |x|\<rfloor>\<close>.
\<close>

function declen :: "int \<Rightarrow> int" where
  "declen x = (if 0 < x then declen (x div 10) + 1 else 0)"
  by pat_completeness auto
termination
  by (relation "measure nat") auto

declare declen.simps [simp del]

definition decexp :: "rat \<Rightarrow> int" where
  "decexp x =
     (let (n, d) = quotient_of x; e = declen \<bar>n\<bar> - declen d
      in if 10 powi e \<le> \<bar>x\<bar> then e else e - 1)"

definition round_sig :: "int \<Rightarrow> rat \<Rightarrow> rat" where
  "round_sig k x =
     of_int (rne (x / 10 powi (decexp x - k + 1))) * 10 powi (decexp x - k + 1)"

definition js_to_decimal :: "rat \<Rightarrow> rat" where
  "js_to_decimal x =
     (if x = 0 then 0
      else
        (case find (\<lambda>k. fl64 (round_sig k x) = x)
                [1, 2, 3, 4, 5, 6, 7, 8, 9, 10, 11, 12, 13, 14, 15, 16, 17] of
           Some k \<Rightarrow> round_sig k x
         | None \<Rightarrow> round_sig 17 x))"

subsection \<open>The record store\<close>

text \<open>
  The tables of \<^verbatim>\<open>src/lib/db.ts\<close> (\<open>initDatabase\<close>, lines 25-49), with the columns the
  purchase reads and writes. \<open>products\<close> maps the primary key to its row; \<open>orders\<close> is in
  insertion order; \<open>next_order_id\<close> is the \<^verbatim>\<open>SERIAL\<close> sequence of \<^verbatim>\<open>orders.id\<close>.
  A \<^verbatim>\<open>DECIMAL(10, 2)\<close> value is held as its number of hundredths.
\<close>

record product =
  p_name :: string
  p_stock :: int
  p_price_cents :: int

record order_row =
  o_id :: nat
  o_user_id :: string
  o_product_id :: int
  o_quantity :: int
  o_total_cents :: int
  o_status :: string

record database =
  products :: "int \<Rightarrow> product option"
  orders :: "order_row list"
  next_order_id :: nat

text \<open>
  What the column types accept. \<^verbatim>\<open>INTEGER\<close> is the signed 32-bit range.
  \<^verbatim>\<open>VARCHAR(255)\<close> takes a string of at most 255 characters; of a longer one it cuts off
  the excess when that is all spaces and refuses it otherwise; no text value may hold
  the character with code 0. \<^verbatim>\<open>DECIMAL(10, 2)\<close> rounds the decimal it is given to two
  places, half away from zero, and refuses a result of \<open>10\<^sup>8\<close> or more in absolute value.
  A character of the model stands for one character of the string.
\<close>

definition int4 :: "int \<Rightarrow> bool" where
  "int4 n = (- 2147483648 \<le> n \<and> n \<le> 2147483647)"

definition to_varchar_255 :: "string \<Rightarrow> string option" where
  "to_varchar_255 s =
     (if CHR 0x00 \<in> set s then None
      else if length s \<le> 255 then Some s
      else if list_all (\<lambda>c. c = CHR '' '') (drop 255 s) then Some (take 255 s)
      else None)"

definition round_half_away :: "rat \<Rightarrow> int" where
  "round_half_away x = (if 0 \<le> x then \<lfloor>x + 1 / 2\<rfloor> else - \<lfloor>- x + 1 / 2\<rfloor>)"

definition to_decimal_10_2 :: "rat \<Rightarrow> int option" where
  "to_decimal_10_2 s =
     (let c = round_half_away (s * 100) in if \<bar>c\<bar> < 10 ^ 10 then Some c else None)"

text \<open>
  Modelled from the spec: the Transactional Record Store (PostgreSQL through \<^verbatim>\<open>pg\<close>,
  external to the repository) of section 6: begin/commit/rollback with all-or-nothing
  commits, a read-for-update of one row, and parameterised writes. A rollback returns
  the database to its content at \<^verbatim>\<open>BEGIN\<close>. A statement whose parameters do not fit the
  column types above throws. \<open>db_fault\<close> names the call that throws for another reason
  in one run of the handler, if any: \<open>getPool()\<close>, \<^verbatim>\<open>BEGIN\<close>, the \<^verbatim>\<open>SELECT\<close>, the
  \<^verbatim>\<open>ROLLBACK\<close> of the not-found or out-of-stock exit, the \<^verbatim>\<open>UPDATE\<close>, the \<^verbatim>\<open>INSERT\<close>
  or the \<^verbatim>\<open>COMMIT\<close>.
\<close>

datatype db_fault =
  NoFault | PoolFails | BeginFails | SelectFails | RollbackFails | UpdateFails | InsertFails
  | CommitFails

text \<open>
  \<^verbatim>\<open>SELECT id, stock, price, name FROM products WHERE id = $1 FOR UPDATE\<close>. The
  parameter is read as an \<^verbatim>\<open>INTEGER\<close>, the type of the key: a value outside the range
  is refused. No row has such a key, and the row of a key that the table holds is what
  the statement returns.
\<close>

definition sql_select_product :: "database \<Rightarrow> int \<Rightarrow> exn + product option" where
  "sql_select_product d pid =
     (case products d pid of
        Some row \<Rightarrow> Inr (Some row)
      | None \<Rightarrow> if int4 pid then Inr None else Inl DatabaseError)"

text \<open>\<^verbatim>\<open>UPDATE products SET stock = $1 WHERE id = $2\<close>; \<open>None\<close> when it is refused.\<close>

definition sql_update_stock :: "database \<Rightarrow> int \<Rightarrow> int \<Rightarrow> database option" where
  "sql_update_stock d newStock pid =
     (if int4 newStock then
        Some (d\<lparr>products :=
                 (products d)(pid := map_option (\<lambda>p. p\<lparr>p_stock := newStock\<rparr>) (products d pid))\<rparr>)
      else None)"

text \<open>
  \<^verbatim>\<open>INSERT INTO orders (user_id, product_id, quantity, total_price, status)
  VALUES ($1, $2, $3, $4, 'completed') RETURNING id, created_at\<close>; \<open>None\<close> when it is
  refused. \<open>totalPrice\<close> is the double of line 64, sent as its decimal string.
\<close>

definition sql_insert_order ::
  "database \<Rightarrow> string \<Rightarrow> int \<Rightarrow> int \<Rightarrow> rat \<Rightarrow> (nat \<times> database) option" where
  "sql_insert_order d uid pid q totalPrice =
     (case (to_varchar_255 uid, to_decimal_10_2 (js_to_decimal totalPrice)) of
        (Some user_id, Some total_price) \<Rightarrow>
          if int4 pid \<and> products d pid \<noteq> None \<and> int4 q \<and> int4 (int (next_order_id d)) then
            Some (next_order_id d,
                  d\<lparr>orders := orders d @
                        [\<lparr>o_id = next_order_id d, o_user_id = user_id, o_product_id = pid,
                          o_quantity = q, o_total_cents = total_price,
                          o_status = ''completed''\<rparr>],
                    next_order_id := Suc (next_order_id d)\<rparr>)
          else None
      | _ \<Rightarrow> None)"

subsection \<open>The handler \<open>POST\<close> (\<^verbatim>\<open>src/app/api/purchase/route.ts\<close>)\<close>

definition internal_error :: response where
  "internal_error = json_response 500 False ''Internal server error''"

definition purchase_ok :: "nat \<Rightarrow> int \<Rightarrow> string \<Rightarrow> int \<Rightarrow> rat \<Rightarrow> int \<Rightarrow> response" where
  "purchase_ok oid pid pname q totalPrice newStock =
     \<lparr>status = 200, success = True, message = ''Purchase successful'',
      order_field = Some \<lparr>oj_id = oid, oj_productId = pid, oj_productName = pname,
                           oj_quantity = q, oj_totalPrice = totalPrice,
                           oj_remainingStock = newStock\<rparr>,
      headers = []\<rparr>"

text \<open>
  Lines 23-91: from \<open>getPool()\<close> to the inner \<^verbatim>\<open>catch\<close>. \<open>Inl\<close> is the error the inner
  \<^verbatim>\<open>catch\<close> rethrows after its \<^verbatim>\<open>ROLLBACK\<close> (or that \<open>getPool()\<close> and \<^verbatim>\<open>BEGIN\<close> throw
  before the inner \<^verbatim>\<open>try\<close>); the database is then \<open>d0\<close>, the content at \<^verbatim>\<open>BEGIN\<close>.
  \<open>totalPrice\<close> is a double: the response carries it as it is, the order row holds
  what \<^verbatim>\<open>DECIMAL(10, 2)\<close> makes of it.
\<close>

definition purchase_transaction ::
  "db_fault \<Rightarrow> int \<Rightarrow> string \<Rightarrow> int \<Rightarrow> database \<Rightarrow> (exn + response) \<times> database" where
  "purchase_transaction flt pid uid q d0 =
     (if flt = PoolFails \<or> flt = BeginFails then (Inl DatabaseError, d0)
      else if flt = SelectFails then (Inl DatabaseError, d0)
      else
        (case sql_select_product d0 pid of
           Inl x \<Rightarrow> (Inl x, d0)
         | Inr None \<Rightarrow>
             if flt = RollbackFails then (Inl DatabaseError, d0)
             else (Inr (json_response 404 False ''Product not found''), d0)
         | Inr (Some row) \<Rightarrow>
             (let currentStock = p_stock row in
              if currentStock < q then
                (if flt = RollbackFails then (Inl DatabaseError, d0)
                 else (Inr (json_response 200 False ''Out of stock''), d0))
              else
                (let newStock = currentStock - q in
                 if flt = UpdateFails then (Inl DatabaseError, d0)
                 else
                   (case sql_update_stock d0 newStock pid of
                      None \<Rightarrow> (Inl DatabaseError, d0)
                    | Some d1 \<Rightarrow>
                        (let totalPrice = js_price_times (p_price_cents row) q
                         in if flt = InsertFails then (Inl DatabaseError, d0)
                            else
                              (case sql_insert_order d1 uid pid q totalPrice of
                                 None \<Rightarrow> (Inl DatabaseError, d0)
                               | Some (oid, d2) \<Rightarrow>
                                   if flt = CommitFails then (Inl DatabaseError, d0)
                                   else (Inr (purchase_ok oid pid (p_name row) q totalPrice
                                                newStock),
                                         d2))))))))"

text \<open>What one run of the handler is given besides the request and the two stores.\<close>

record env =
  now :: nat
  user_faults :: redis_faults
  ip_faults :: redis_faults
  db_fault :: db_fault

record world =
  redis_state :: redis
  db_state :: database

text \<open>
  Lines 5-99. Line 8 gives \<open>quantity\<close> the default 1 when the key is absent; line 11
  calls the middleware with the limit 5 and the window 60000 ms; the outer \<^verbatim>\<open>catch\<close>
  (lines 92-98) turns every thrown error into the 500 response.
\<close>

definition POST :: "env \<Rightarrow> http_request \<Rightarrow> world \<Rightarrow> response \<times> world" where
  "POST e req w =
     (case body req of
        None \<Rightarrow> (internal_error, w)
      | Some b \<Rightarrow>
          (let q = (case quantity b of None \<Rightarrow> 1 | Some n \<Rightarrow> n) in
           case rateLimitMiddleware (now e) (user_faults e) (ip_faults e) req 5 60000 (userId b)
                  (redis_state w) of
             (Inl x, r1) \<Rightarrow> (internal_error, w\<lparr>redis_state := r1\<rparr>)
           | (Inr (Some rateLimitResponse), r1) \<Rightarrow> (rateLimitResponse, w\<lparr>redis_state := r1\<rparr>)
           | (Inr None, r1) \<Rightarrow>
               if \<not> truthy_int (productId b) \<or> \<not> truthy_str (userId b) then
                 (json_response 400 False ''Missing productId or userId'', w\<lparr>redis_state := r1\<rparr>)
               else
                 (case (productId b, userId b) of
                    (Some pid, Some uid) \<Rightarrow>
                      (case purchase_transaction (db_fault e) pid uid q (db_state w) of
                         (Inl x, d1) \<Rightarrow> (internal_error, \<lparr>redis_state = r1, db_state = d1\<rparr>)
                       | (Inr resp, d1) \<Rightarrow> (resp, \<lparr>redis_state = r1, db_state = d1\<rparr>))
                  | _ \<Rightarrow> (json_response 400 False ''Missing productId or userId'',
                          w\<lparr>redis_state := r1\<rparr>))))"

subsection \<open>Sequences of calls\<close>

text \<open>Handler runs applied one at a time; each comes with its own environment.\<close>

fun run :: "(env \<times> http_request) list \<Rightarrow> world \<Rightarrow> world" where
  "run [] w = w"
| "run ((e, req) # rest) w = run rest (snd (POST e req w))"

text \<open>The quantity the handler works with: the body's, or 1 when the key is absent.\<close>

definition requested_quantity :: "http_request \<Rightarrow> int" where
  "requested_quantity req =
     (case body req of
        None \<Rightarrow> 1
      | Some b \<Rightarrow> (case quantity b of None \<Rightarrow> 1 | Some n \<Rightarrow> n))"

text \<open>The sum of the quantities of the order rows of one product.\<close>

definition sold :: "int \<Rightarrow> order_row list \<Rightarrow> int" where
  "sold pid os = sum_list (map o_quantity (filter (\<lambda>x. o_product_id x = pid) os))"

definition stock_of :: "world \<Rightarrow> int \<Rightarrow> int option" where
  "stock_of w pid = map_option p_stock (products (db_state w) pid)"

text \<open>
  A run reaches the transaction when the body parses, both rate-limit tiers pass and
  the check of line 16 passes.
\<close>

definition reaches_transaction :: "env \<Rightarrow> http_request \<Rightarrow> world \<Rightarrow> bool" where
  "reaches_transaction e req w =
     (case body req of
        None \<Rightarrow> False
      | Some b \<Rightarrow>
          fst (rateLimitMiddleware (now e) (user_faults e) (ip_faults e) req 5 60000 (userId b)
                 (redis_state w)) = Inr None
          \<and> truthy_int (productId b) \<and> truthy_str (userId b))"

text \<open>
  Calls of \<open>checkRateLimit\<close> with the same options at the given times, one after the
  other: each result with the store after the call.
\<close>

fun check_trace ::
  "redis_faults \<Rightarrow> options \<Rightarrow> nat list \<Rightarrow> redis \<Rightarrow> ((exn + rate_result) \<times> redis) list" where
  "check_trace f opts [] r = []"
| "check_trace f opts (t # ts) r =
     (let res = checkRateLimit t f opts r in res # check_trace f opts ts (snd res))"

subsection \<open>The database after a committed purchase\<close>

abbreviation committed :: "database \<Rightarrow> int \<Rightarrow> string \<Rightarrow> int \<Rightarrow> product \<Rightarrow> database" where
  "committed d pid uid q row \<equiv>
     d\<lparr>products := (products d)(pid \<mapsto> row\<lparr>p_stock := p_stock row - q\<rparr>),
       orders := orders d @
         [\<lparr>o_id = next_order_id d, o_user_id = take 255 uid, o_product_id = pid, o_quantity = q,
           o_total_cents = p_price_cents row * q, o_status = ''completed''\<rparr>],
       next_order_id := Suc (next_order_id d)\<rparr>"

subsection \<open>Example inputs\<close>

text \<open>A fresh process, one product with five items in stock, and a request from no
  particular address.\<close>

definition demo_world :: world where
  "demo_world =
     \<lparr>redis_state = \<lparr>redisClient = False, kv = Map.empty\<rparr>,
      db_state = \<lparr>products = [1 \<mapsto> \<lparr>p_name = ''widget'', p_stock = 5, p_price_cents = 1999\<rparr>],
                  orders = [], next_order_id = 1\<rparr>\<rparr>"

definition demo_env :: env where
  "demo_env =
     \<lparr>now = 0, user_faults = no_redis_faults, ip_faults = no_redis_faults, db_fault = NoFault\<rparr>"

definition demo_request :: "int option \<Rightarrow> string option \<Rightarrow> int option \<Rightarrow> http_request" where
  "demo_request pid uid q =
     \<lparr>body = Some \<lparr>productId = pid, userId = uid, quantity = q\<rparr>,
      query_userId = None, x_forwarded_for = None, x_real_ip = None\<rparr>"

text \<open>The same with a price of 99999999.99, the largest that \<^verbatim>\<open>DECIMAL(10, 2)\<close> holds.\<close>

definition demo_dear_world :: world where
  "demo_dear_world =
     \<lparr>redis_state = \<lparr>redisClient = False, kv = Map.empty\<rparr>,
      db_state = \<lparr>products = [1 \<mapsto> \<lparr>p_name = ''widget'', p_stock = 5,
                                     p_price_cents = 9999999999\<rparr>],
                  orders = [], next_order_id = 1\<rparr>\<rparr>"

definition demo_ops :: "(env \<times> http_request) list" where
  "demo_ops =
     [(demo_env, demo_request (Some 1) (Some ''u1'') (Some 3)),
      (demo_env, demo_request (Some 1) (Some ''u2'') (Some 3))]"

section \<open>Properties\<close>

subsection \<open>Rounding: the double product and the stored total\<close>

lemma rne_error: "\<bar>of_int (rne x) - x\<bar> \<le> 1 / 2"
proof -
  have "of_int \<lfloor>x\<rfloor> \<le> x" "x < of_int \<lfloor>x\<rfloor> + 1" by linarith+
  then show ?thesis
    unfolding rne_def Let_def by (simp add: abs_if) linarith
qed

lemma quotient_of_abs:
  assumes "quotient_of x = (n, d)"
  shows "0 < d" "\<bar>x\<bar> = of_int \<bar>n\<bar> / of_int d"
proof -
  show "0 < d" using assms by (rule quotient_of_denom_pos)
  then show "\<bar>x\<bar> = of_int \<bar>n\<bar> / of_int d"
    using quotient_of_div[OF assms] by (simp add: abs_divide)
qed

lemma binexp_le:
  assumes "x \<noteq> 0"
  shows "2 powi (binexp x) \<le> \<bar>x\<bar>"
proof -
  obtain n d where q: "quotient_of x = (n, d)" by (cases "quotient_of x")
  note qa = quotient_of_abs[OF q]
  have n0: "0 < \<bar>n\<bar>" using assms quotient_of_div[OF q] by auto
  let ?e = "bitlen \<bar>n\<bar> - bitlen d"
  have "(2::rat) powi (?e - 1) \<le> \<bar>x\<bar>"
  proof -
    have ln: "(2::int) ^ nat (bitlen \<bar>n\<bar> - 1) \<le> \<bar>n\<bar>"
      using bitlen_bounds[OF n0] by simp
    have ld: "d < 2 ^ nat (bitlen d)"
      using bitlen_bounds[OF qa(1)] by simp
    have bn: "0 < bitlen \<bar>n\<bar>" "0 < bitlen d"
      using n0 qa(1) by (simp_all add: bitlen_eq_zero_iff less_le bitlen_nonneg)
    have 1: "(2::rat) powi (bitlen \<bar>n\<bar> - 1) \<le> of_int \<bar>n\<bar>"
    proof -
      have "(of_int ((2::int) ^ nat (bitlen \<bar>n\<bar> - 1)) :: rat) \<le> of_int \<bar>n\<bar>"
        using ln by (simp only: of_int_le_iff)
      then show ?thesis using bn by (simp add: power_int_def)
    qed
    have 2: "(of_int d :: rat) \<le> 2 powi (bitlen d)"
    proof -
      have "(of_int d :: rat) \<le> of_int ((2::int) ^ nat (bitlen d))"
        using ld by (simp only: of_int_le_iff)
      then show ?thesis using bn by (simp add: power_int_def)
    qed
    have "(2::rat) powi (?e - 1) = 2 powi (bitlen \<bar>n\<bar> - 1) / 2 powi (bitlen d)"
      by (simp add: power_int_diff)
    also have "\<dots> \<le> of_int \<bar>n\<bar> / of_int d"
      using 1 2 qa(1) by (intro frac_le) auto
    finally show ?thesis using qa(2) by simp
  qed
  then show ?thesis
    using q by (auto simp: binexp_def Let_def)
qed

lemma fl64_error: "\<bar>fl64 x - x\<bar> \<le> \<bar>x\<bar> / 2 ^ 53"
proof (cases "x = 0")
  case True
  then show ?thesis by (simp add: fl64_def)
next
  case False
  let ?p = "(2::rat) powi (binexp x - 52)"
  have p: "0 < ?p" by simp
  have "of_int (rne (x / ?p)) * ?p - x = (of_int (rne (x / ?p)) - x / ?p) * ?p"
    using p by (simp add: left_diff_distrib)
  then have "\<bar>fl64 x - x\<bar> = \<bar>of_int (rne (x / ?p)) - x / ?p\<bar> * ?p"
    using False p by (simp add: fl64_def abs_mult)
  also have "\<dots> \<le> 1 / 2 * ?p"
    using rne_error[of "x / ?p"] p by (intro mult_right_mono) auto
  also have "\<dots> = 2 powi (binexp x) / 2 ^ 53"
    by (simp add: power_int_diff)
  also have "\<dots> \<le> \<bar>x\<bar> / 2 ^ 53"
    using binexp_le[OF False] by (simp add: divide_right_mono)
  finally show ?thesis .
qed

lemma declen_bounds:
  "0 < x \<Longrightarrow> 10 ^ nat (declen x - 1) \<le> x \<and> x < 10 ^ nat (declen x) \<and> 0 < declen x"
proof (induction x rule: declen.induct)
  case (1 x)
  show ?case
  proof (cases "0 < x div 10")
    case True
    with "1.IH" "1.prems"
    have ih: "10 ^ nat (declen (x div 10) - 1) \<le> x div 10" "x div 10 < 10 ^ nat (declen (x div 10))"
      "0 < declen (x div 10)" by simp_all
    have d: "declen x = declen (x div 10) + 1"
      using "1.prems" by (subst declen.simps) simp
    have e: "nat (declen (x div 10)) = Suc (nat (declen (x div 10) - 1))"
      using ih(3) by simp
    have "10 * 10 ^ nat (declen (x div 10) - 1) \<le> 10 * (x div 10)" using ih(1) by simp
    also have "\<dots> \<le> x" by simp
    finally have lo: "10 ^ nat (declen x - 1) \<le> x" using d e by simp
    have "x < 10 * (x div 10 + 1)" by simp
    also have "\<dots> \<le> 10 * 10 ^ nat (declen (x div 10))" using ih(2) by simp
    finally have hi: "x < 10 ^ nat (declen x)" using d ih(3) by (simp add: nat_add_distrib)
    from lo hi d ih(3) show ?thesis by simp
  next
    case False
    with "1.prems" have x: "x < 10" by simp
    have "declen (x div 10) = 0" using False by (subst declen.simps) simp
    then have "declen x = 1" using "1.prems" by (subst declen.simps) simp
    with x "1.prems" show ?thesis by simp
  qed
qed

lemma decexp_le:
  assumes "x \<noteq> 0"
  shows "10 powi (decexp x) \<le> \<bar>x\<bar>"
proof -
  obtain n d where q: "quotient_of x = (n, d)" by (cases "quotient_of x")
  note qa = quotient_of_abs[OF q]
  have n0: "0 < \<bar>n\<bar>" using assms quotient_of_div[OF q] by auto
  let ?e = "declen \<bar>n\<bar> - declen d"
  have "(10::rat) powi (?e - 1) \<le> \<bar>x\<bar>"
  proof -
    have ln: "(10::int) ^ nat (declen \<bar>n\<bar> - 1) \<le> \<bar>n\<bar>"
      using declen_bounds[OF n0] by simp
    have ld: "d < 10 ^ nat (declen d)"
      using declen_bounds[OF qa(1)] by simp
    have bn: "0 < declen \<bar>n\<bar>" "0 < declen d"
      using declen_bounds[OF n0] declen_bounds[OF qa(1)] by simp_all
    have 1: "(10::rat) powi (declen \<bar>n\<bar> - 1) \<le> of_int \<bar>n\<bar>"
    proof -
      have "(of_int ((10::int) ^ nat (declen \<bar>n\<bar> - 1)) :: rat) \<le> of_int \<bar>n\<bar>"
        using ln by (simp only: of_int_le_iff)
      then show ?thesis using bn by (simp add: power_int_def)
    qed
    have 2: "(of_int d :: rat) \<le> 10 powi (declen d)"
    proof -
      have "(of_int d :: rat) \<le> of_int ((10::int) ^ nat (declen d))"
        using ld by (simp only: of_int_le_iff)
      then show ?thesis using bn by (simp add: power_int_def)
    qed
    have "(10::rat) powi (?e - 1) = 10 powi (declen \<bar>n\<bar> - 1) / 10 powi (declen d)"
      by (simp add: power_int_diff)
    also have "\<dots> \<le> of_int \<bar>n\<bar> / of_int d"
      using 1 2 qa(1) by (intro frac_le) auto
    finally show ?thesis using qa(2) by simp
  qed
  then show ?thesis
    using q by (auto simp: decexp_def Let_def)
qed

lemma round_sig_17_error: "\<bar>round_sig 17 x - x\<bar> \<le> \<bar>x\<bar> / 2 ^ 53"
proof (cases "x = 0")
  case True
  then show ?thesis by (simp add: round_sig_def rne_def)
next
  case False
  let ?p = "(10::rat) powi (decexp x - 17 + 1)"
  have p: "0 < ?p" by simp
  have "of_int (rne (x / ?p)) * ?p - x = (of_int (rne (x / ?p)) - x / ?p) * ?p"
    using p by (simp add: left_diff_distrib)
  then have "\<bar>round_sig 17 x - x\<bar> = \<bar>of_int (rne (x / ?p)) - x / ?p\<bar> * ?p"
    using p by (simp add: round_sig_def abs_mult)
  also have "\<dots> \<le> 1 / 2 * ?p"
    using rne_error[of "x / ?p"] p by (intro mult_right_mono) auto
  also have "\<dots> = 10 powi (decexp x) / (2 * 10 ^ 16)"
    by (simp add: power_int_diff)
  also have "\<dots> \<le> \<bar>x\<bar> / (2 * 10 ^ 16)"
    using decexp_le[OF False] by (simp add: divide_right_mono)
  also have "\<dots> \<le> \<bar>x\<bar> / 2 ^ 53"
    by (intro divide_left_mono) auto
  finally show ?thesis .
qed

lemma read_back_error:
  assumes "fl64 s = x"
  shows "\<bar>s - x\<bar> \<le> \<bar>x\<bar> / 2 ^ 52"
proof -
  have e: "\<bar>x - s\<bar> \<le> \<bar>s\<bar> / 2 ^ 53"
    using fl64_error[of s] assms by simp
  have "\<bar>s\<bar> \<le> \<bar>x\<bar> + \<bar>x - s\<bar>" by simp
  with e have "\<bar>s\<bar> \<le> \<bar>x\<bar> + \<bar>s\<bar> / 2 ^ 53" by linarith
  moreover have "\<bar>s\<bar> / 2 ^ 53 \<le> \<bar>s\<bar> / 2" by (intro divide_left_mono) auto
  ultimately have "\<bar>s\<bar> \<le> 2 * \<bar>x\<bar>" by linarith
  then have "\<bar>s\<bar> / 2 ^ 53 \<le> 2 * \<bar>x\<bar> / 2 ^ 53" by (simp add: divide_right_mono)
  also have "\<dots> = \<bar>x\<bar> / 2 ^ 52" by simp
  finally show ?thesis using e by (simp add: abs_minus_commute)
qed

lemma find_SomeD: "find P xs = Some k \<Longrightarrow> P k"
  by (induction xs) (auto split: if_splits)

lemma js_to_decimal_error: "\<bar>js_to_decimal x - x\<bar> \<le> \<bar>x\<bar> / 2 ^ 52"
proof (cases "x = 0")
  case True
  then show ?thesis by (simp add: js_to_decimal_def)
next
  case False
  let ?ks = "[1, 2, 3, 4, 5, 6, 7, 8, 9, 10, 11, 12, 13, 14, 15, 16, 17 :: int]"
  show ?thesis
  proof (cases "find (\<lambda>k. fl64 (round_sig k x) = x) ?ks")
    case None
    have "\<bar>x\<bar> / 2 ^ 53 \<le> \<bar>x\<bar> / 2 ^ 52" by (intro divide_left_mono) auto
    with False round_sig_17_error[of x] show ?thesis
      unfolding js_to_decimal_def None by simp
  next
    case (Some k)
    from find_SomeD[OF Some] have "fl64 (round_sig k x) = x" .
    from read_back_error[OF this] False show ?thesis
      unfolding js_to_decimal_def Some by simp
  qed
qed

lemma rel_error_step:
  fixes x y z a b :: rat
  assumes "\<bar>y - x\<bar> \<le> \<bar>x\<bar> * a" "\<bar>z - y\<bar> \<le> \<bar>y\<bar> * b" "0 \<le> b"
  shows "\<bar>z - x\<bar> \<le> \<bar>x\<bar> * (a + b + a * b)"
proof -
  have "\<bar>y\<bar> \<le> \<bar>x\<bar> + \<bar>y - x\<bar>" by simp
  with assms(1) have "\<bar>y\<bar> \<le> \<bar>x\<bar> + \<bar>x\<bar> * a" by linarith
  then have "\<bar>y\<bar> * b \<le> (\<bar>x\<bar> + \<bar>x\<bar> * a) * b"
    using assms(3) by (rule mult_right_mono)
  with assms(2) have "\<bar>z - y\<bar> \<le> \<bar>x\<bar> * b + \<bar>x\<bar> * (a * b)"
    by (simp add: algebra_simps)
  moreover have "\<bar>z - x\<bar> \<le> \<bar>z - y\<bar> + \<bar>y - x\<bar>" by simp
  ultimately show ?thesis using assms(1) by (simp add: algebra_simps)
qed

lemma js_price_times_error:
  "\<bar>js_to_decimal (js_price_times c q) - of_int (c * q) / 100\<bar> \<le> \<bar>of_int (c * q) / 100\<bar> / 2 ^ 50"
proof -
  let ?X = "of_int (c * q) / 100 :: rat"
  let ?a = "fl64 (of_int c / 100)"
  let ?d = "js_price_times c q"
  let ?u = "1 / 2 ^ 53 :: rat"
  have "\<bar>?a * of_int q - ?X\<bar> = \<bar>?a - of_int c / 100\<bar> * \<bar>of_int q\<bar>"
    by (simp add: abs_mult[symmetric] left_diff_distrib)
  also have "\<dots> \<le> \<bar>of_int c / 100\<bar> / 2 ^ 53 * \<bar>of_int q\<bar>"
    by (intro mult_right_mono fl64_error) simp
  also have "\<dots> = \<bar>?X\<bar> * ?u" by (simp add: abs_mult)
  finally have 1: "\<bar>?a * of_int q - ?X\<bar> \<le> \<bar>?X\<bar> * ?u" .
  have 2: "\<bar>?d - ?a * of_int q\<bar> \<le> \<bar>?a * of_int q\<bar> * ?u"
    using fl64_error[of "?a * of_int q"] by (simp add: js_price_times_def)
  have 3: "\<bar>?d - ?X\<bar> \<le> \<bar>?X\<bar> * (?u + ?u + ?u * ?u)"
    by (rule rel_error_step[OF 1 2]) simp
  have 4: "\<bar>js_to_decimal ?d - ?d\<bar> \<le> \<bar>?d\<bar> * (1 / 2 ^ 52)"
    using js_to_decimal_error[of ?d] by simp
  have "\<bar>js_to_decimal ?d - ?X\<bar> \<le>
          \<bar>?X\<bar> * ((?u + ?u + ?u * ?u) + 1 / 2 ^ 52 + (?u + ?u + ?u * ?u) * (1 / 2 ^ 52))"
    by (rule rel_error_step[OF 3 4]) simp
  also have "\<dots> \<le> \<bar>?X\<bar> * (1 / 2 ^ 50)"
    by (intro mult_left_mono) simp_all
  finally show ?thesis by simp
qed

lemma round_half_away_error: "\<bar>of_int (round_half_away t) - t\<bar> \<le> 1 / 2"
  unfolding round_half_away_def by (simp add: abs_if) linarith

lemma round_half_away_eqI:
  assumes "\<bar>t - of_int n\<bar> < 1 / 2"
  shows "round_half_away t = n"
proof -
  have "\<lfloor>t + 1 / 2\<rfloor> = n" using assms by (intro floor_unique) (simp_all add: abs_if split: if_splits)
  moreover have "\<lfloor>- t + 1 / 2\<rfloor> = - n"
    using assms by (intro floor_unique) (simp_all add: abs_if split: if_splits)
  ultimately show ?thesis by (simp add: round_half_away_def)
qed

lemma total_price_stored:
  "to_decimal_10_2 (js_to_decimal (js_price_times c q)) =
     (if \<bar>c * q\<bar> < 10 ^ 10 then Some (c * q) else None)"
proof -
  let ?s = "js_to_decimal (js_price_times c q)"
  let ?n = "c * q"
  have "?s * 100 - of_int ?n = (?s - of_int ?n / 100) * 100"
    by (simp add: left_diff_distrib)
  then have "\<bar>?s * 100 - of_int ?n\<bar> = \<bar>?s - of_int ?n / 100\<bar> * \<bar>100\<bar>"
    by (simp only: abs_mult)
  then have "\<bar>?s * 100 - of_int ?n\<bar> = \<bar>?s - of_int ?n / 100\<bar> * 100"
    by simp
  also have "\<dots> \<le> \<bar>of_int ?n / 100\<bar> / 2 ^ 50 * 100"
    by (intro mult_right_mono js_price_times_error) simp
  also have "\<dots> = \<bar>of_int ?n\<bar> / 2 ^ 50" by simp
  finally have e: "\<bar>?s * 100 - of_int ?n\<bar> \<le> \<bar>of_int ?n\<bar> / 2 ^ 50" .
  show ?thesis
  proof (cases "\<bar>?n\<bar> < 2 ^ 49")
    case True
    then have "\<bar>of_int ?n :: rat\<bar> < 2 ^ 49"
      by (metis of_int_abs of_int_less_numeral_power_cancel_iff)
    then have "\<bar>of_int ?n :: rat\<bar> / 2 ^ 50 < 1 / 2" by simp
    with e have "\<bar>?s * 100 - of_int ?n\<bar> < 1 / 2" by linarith
    from round_half_away_eqI[OF this] show ?thesis
      by (simp add: to_decimal_10_2_def)
  next
    case False
    then have big: "(2::rat) ^ 49 \<le> \<bar>of_int ?n\<bar>"
      by (metis of_int_abs numeral_power_le_of_int_cancel_iff not_less)
    have "\<bar>of_int ?n :: rat\<bar> / 2 ^ 50 \<le> \<bar>of_int ?n\<bar> / 2" by (intro divide_left_mono) auto
    with e have "\<bar>of_int ?n :: rat\<bar> / 2 \<le> \<bar>?s * 100\<bar>" by (simp add: abs_if split: if_splits) 
    with big have "(2::rat) ^ 48 \<le> \<bar>?s * 100\<bar>" by simp
    with round_half_away_error[of "?s * 100"]
    have "(2::rat) ^ 48 - 1 / 2 \<le> \<bar>of_int (round_half_away (?s * 100))\<bar>" by linarith
    then have "(10::rat) ^ 10 \<le> \<bar>of_int (round_half_away (?s * 100))\<bar>" by simp
    then have "(10::int) ^ 10 \<le> \<bar>round_half_away (?s * 100)\<bar>"
      by (metis of_int_abs numeral_power_le_of_int_cancel_iff)
    moreover have "\<not> \<bar>?n\<bar> < 10 ^ 10" using False by simp
    ultimately show ?thesis by (simp add: to_decimal_10_2_def)
  qed
qed

text \<open>
  The double of line 64 is within a relative error of \<open>2\<^sup>-\<^sup>5\<^sup>1\<close> of the exact product, and
  the order row gets the exact product back (in hundredths) whenever that fits
  \<^verbatim>\<open>DECIMAL(10, 2)\<close>: \<open>total_price_stored\<close>.
\<close>

lemma js_price_times_close:
  "\<bar>js_price_times c q - of_int (c * q) / 100\<bar> \<le> \<bar>of_int (c * q) / 100\<bar> / 2 ^ 51"
proof -
  let ?X = "of_int (c * q) / 100 :: rat"
  let ?a = "fl64 (of_int c / 100)"
  let ?u = "1 / 2 ^ 53 :: rat"
  have "\<bar>?a * of_int q - ?X\<bar> = \<bar>?a - of_int c / 100\<bar> * \<bar>of_int q\<bar>"
    by (simp add: abs_mult[symmetric] left_diff_distrib)
  also have "\<dots> \<le> \<bar>of_int c / 100\<bar> / 2 ^ 53 * \<bar>of_int q\<bar>"
    by (intro mult_right_mono fl64_error) simp
  also have "\<dots> = \<bar>?X\<bar> * ?u" by (simp add: abs_mult)
  finally have 1: "\<bar>?a * of_int q - ?X\<bar> \<le> \<bar>?X\<bar> * ?u" .
  have 2: "\<bar>js_price_times c q - ?a * of_int q\<bar> \<le> \<bar>?a * of_int q\<bar> * ?u"
    using fl64_error[of "?a * of_int q"] by (simp add: js_price_times_def)
  have "\<bar>js_price_times c q - ?X\<bar> \<le> \<bar>?X\<bar> * (?u + ?u + ?u * ?u)"
    by (rule rel_error_step[OF 1 2]) simp
  also have "\<dots> \<le> \<bar>?X\<bar> * (1 / 2 ^ 51)"
    by (intro mult_left_mono) simp_all
  finally show ?thesis by simp
qed

text \<open>
  The product for the price 19.99 and the quantity 5 is the double that JavaScript
  prints as \<^verbatim>\<open>99.94999999999999\<close>, not 99.95.
\<close>

lemma double_product_example:
  "js_price_times 1999 5 = 1758338995139379 / 17592186044416"
  "fl64 (9994999999999999 / 100000000000000) = 1758338995139379 / 17592186044416"
  "fl64 (9995 / 100) \<noteq> 1758338995139379 / 17592186044416"
  by code_simp+

subsection \<open>The transaction, statement by statement\<close>

lemma to_varchar_255_SomeD: "to_varchar_255 s = Some u \<Longrightarrow> u = take 255 s"
  by (auto simp: to_varchar_255_def split: if_splits)

lemma varchar_fits_iff:
  "to_varchar_255 s \<noteq> None \<longleftrightarrow> CHR 0x00 \<notin> set s \<and> set (drop 255 s) \<subseteq> {CHR '' ''}"
  by (auto simp: to_varchar_255_def list_all_iff)

lemma int4_iff: "int4 n \<longleftrightarrow> - 2147483648 \<le> n \<and> n \<le> 2147483647"
  by (simp add: int4_def)

text \<open>The column types at their borders.\<close>

lemma column_type_examples:
  "int4 2147483647" "\<not> int4 2147483648" "int4 (- 2147483648)" "\<not> int4 (- 2147483649)"
  "to_varchar_255 (replicate 255 (CHR ''a'')) = Some (replicate 255 (CHR ''a''))"
  "to_varchar_255 (replicate 256 (CHR ''a'')) = None"
  "to_varchar_255 (replicate 255 (CHR ''a'') @ ''  '') = Some (replicate 255 (CHR ''a''))"
  "to_varchar_255 [CHR ''a'', CHR 0x00] = None"
  by (simp_all add: int4_def to_varchar_255_def list_all_iff)

lemma decimal_examples:
  "to_decimal_10_2 (999999999949 / 10000) = Some 9999999999"
  "to_decimal_10_2 (99999999995 / 1000) = None"
  "to_decimal_10_2 (- (5 / 1000)) = Some (- 1)"
  "to_decimal_10_2 (4 / 1000) = Some 0"
  by code_simp+

lemma sql_insert_order_price:
  "sql_insert_order d uid pid q (js_price_times c q) =
     (case to_varchar_255 uid of
        None \<Rightarrow> None
      | Some u \<Rightarrow>
          if \<bar>c * q\<bar> < 10 ^ 10 \<and> int4 pid \<and> products d pid \<noteq> None \<and> int4 q
             \<and> int4 (int (next_order_id d))
          then Some (next_order_id d,
                     d\<lparr>orders := orders d @
                           [\<lparr>o_id = next_order_id d, o_user_id = u, o_product_id = pid,
                             o_quantity = q, o_total_cents = c * q, o_status = ''completed''\<rparr>],
                       next_order_id := Suc (next_order_id d)\<rparr>)
          else None)"
  by (simp add: sql_insert_order_def total_price_stored split: option.splits)

lemma purchase_transaction_no_fault:
  "purchase_transaction NoFault pid uid q d0 =
     (case products d0 pid of
        None \<Rightarrow>
          (if int4 pid then Inr (json_response 404 False ''Product not found'')
           else Inl DatabaseError, d0)
      | Some row \<Rightarrow>
          if p_stock row < q then (Inr (json_response 200 False ''Out of stock''), d0)
          else if int4 (p_stock row - q) \<and> to_varchar_255 uid \<noteq> None
                  \<and> \<bar>p_price_cents row * q\<bar> < 10 ^ 10 \<and> int4 pid \<and> int4 q
                  \<and> int4 (int (next_order_id d0))
          then (Inr (purchase_ok (next_order_id d0) pid (p_name row) q
                       (js_price_times (p_price_cents row) q) (p_stock row - q)),
                committed d0 pid uid q row)
          else (Inl DatabaseError, d0))"
  by (auto simp: purchase_transaction_def sql_select_product_def sql_update_stock_def
      sql_insert_order_price Let_def dest: to_varchar_255_SomeD split: option.splits)

lemma purchase_transaction_cases:
  assumes "purchase_transaction flt pid uid q d0 = (res, d1)"
  shows "d1 = d0 \<and> (\<forall>resp. res = Inr resp \<longrightarrow> \<not> success resp)
     \<or> (\<exists>row. products d0 pid = Some row \<and> q \<le> p_stock row
          \<and> to_varchar_255 uid \<noteq> None \<and> \<bar>p_price_cents row * q\<bar> < 10 ^ 10
          \<and> res = Inr (purchase_ok (next_order_id d0) pid (p_name row) q
                         (js_price_times (p_price_cents row) q) (p_stock row - q))
          \<and> d1 = committed d0 pid uid q row)"
  using assms
  by (cases flt)
     (auto simp: purchase_transaction_def sql_select_product_def sql_update_stock_def
        sql_insert_order_price json_response_def Let_def
        dest: to_varchar_255_SomeD split: option.splits if_splits)

lemma purchase_transaction_early:
  assumes "flt \<notin> {PoolFails, BeginFails, SelectFails, RollbackFails}"
  shows "products d0 pid = None \<Longrightarrow> int4 pid \<Longrightarrow>
           purchase_transaction flt pid uid q d0 =
             (Inr (json_response 404 False ''Product not found''), d0)"
    and "products d0 pid = Some row \<Longrightarrow> p_stock row < q \<Longrightarrow>
           purchase_transaction flt pid uid q d0 =
             (Inr (json_response 200 False ''Out of stock''), d0)"
  using assms by (simp_all add: purchase_transaction_def sql_select_product_def)

lemma purchase_transaction_out_of_range:
  assumes "flt \<notin> {PoolFails, BeginFails, SelectFails}" "products d0 pid = None" "\<not> int4 pid"
  shows "purchase_transaction flt pid uid q d0 = (Inl DatabaseError, d0)"
  using assms by (simp add: purchase_transaction_def sql_select_product_def)

lemma purchase_transaction_throws:
  "fst (purchase_transaction flt pid uid q d0) = Inl x \<Longrightarrow>
     snd (purchase_transaction flt pid uid q d0) = d0"
  by (cases "purchase_transaction flt pid uid q d0")
     (auto dest!: purchase_transaction_cases simp: purchase_ok_def)

subsection \<open>The handler: which runs change the database\<close>

lemma middleware_response:
  "rateLimitMiddleware t fu fi req m wn uid r = (Inr (Some resp), r1) \<Longrightarrow>
     status resp = 429 \<and> \<not> success resp"
  by (auto simp: rateLimitMiddleware_def too_many_def split: prod.splits sum.splits if_splits)

lemma POST_reaches:
  assumes "reaches_transaction e req w" "body req = Some b"
    "productId b = Some pid" "userId b = Some uid"
  shows "POST e req w =
     (case purchase_transaction (db_fault e) pid uid (requested_quantity req) (db_state w) of
        (Inl x, d1) \<Rightarrow>
          (internal_error,
           \<lparr>redis_state = snd (rateLimitMiddleware (now e) (user_faults e) (ip_faults e) req 5 60000
                                  (userId b) (redis_state w)),
            db_state = d1\<rparr>)
      | (Inr resp, d1) \<Rightarrow>
          (resp,
           \<lparr>redis_state = snd (rateLimitMiddleware (now e) (user_faults e) (ip_faults e) req 5 60000
                                  (userId b) (redis_state w)),
            db_state = d1\<rparr>))"
proof -
  obtain r1 where mw:
    "rateLimitMiddleware (now e) (user_faults e) (ip_faults e) req 5 60000 (userId b)
       (redis_state w) = (Inr None, r1)"
    using assms(1,2)
    by (cases "rateLimitMiddleware (now e) (user_faults e) (ip_faults e) req 5 60000 (userId b)
                 (redis_state w)") (simp add: reaches_transaction_def)
  have t: "truthy_int (productId b)" "truthy_str (userId b)"
    using assms(1,2) by (simp_all add: reaches_transaction_def)
  have rq: "requested_quantity req = (case quantity b of None \<Rightarrow> 1 | Some n \<Rightarrow> n)"
    using assms(2) by (simp add: requested_quantity_def)
  show ?thesis
    using assms(2-4) mw t by (simp add: POST_def rq split: prod.splits sum.splits)
qed

lemma POST_not_reaching:
  assumes "\<not> reaches_transaction e req w" "POST e req w = (resp, w')"
  shows "db_state w' = db_state w \<and> \<not> success resp"
proof (cases "body req")
  case None
  with assms(2) show ?thesis
    by (auto simp: POST_def internal_error_def json_response_def)
next
  case (Some b)
  obtain res r1 where mw:
    "rateLimitMiddleware (now e) (user_faults e) (ip_faults e) req 5 60000 (userId b)
       (redis_state w) = (res, r1)"
    by (cases "rateLimitMiddleware (now e) (user_faults e) (ip_faults e) req 5 60000 (userId b)
                 (redis_state w)")
  show ?thesis
  proof (cases res)
    case (Inl x)
    with assms(2) Some mw show ?thesis
      by (auto simp: POST_def internal_error_def json_response_def)
  next
    case (Inr ro)
    show ?thesis
    proof (cases ro)
      case (Some rr)
      with assms(2) \<open>body req = Some b\<close> mw Inr middleware_response[OF mw[unfolded Inr Some]]
      show ?thesis
        by (auto simp: POST_def)
    next
      case None
      with assms(1) \<open>body req = Some b\<close> mw Inr
      have "\<not> truthy_int (productId b) \<or> \<not> truthy_str (userId b)"
        by (simp add: reaches_transaction_def)
      with assms(2) \<open>body req = Some b\<close> mw Inr None show ?thesis
        by (auto simp: POST_def json_response_def)
    qed
  qed
qed

lemma reaches_ids:
  assumes "reaches_transaction e req w"
  obtains b pid uid where "body req = Some b" "productId b = Some pid" "pid \<noteq> 0"
    "userId b = Some uid" "uid \<noteq> []"
  using assms
  by (auto simp: reaches_transaction_def truthy_int_def truthy_str_def split: option.splits)

lemma POST_cases:
  assumes "POST e req w = (resp, w')"
  shows "db_state w' = db_state w \<and> \<not> success resp
     \<or> (\<exists>b pid uid row. body req = Some b \<and> productId b = Some pid \<and> userId b = Some uid
          \<and> reaches_transaction e req w
          \<and> products (db_state w) pid = Some row \<and> requested_quantity req \<le> p_stock row
          \<and> to_varchar_255 uid \<noteq> None
          \<and> \<bar>p_price_cents row * requested_quantity req\<bar> < 10 ^ 10
          \<and> resp = purchase_ok (next_order_id (db_state w)) pid (p_name row)
                     (requested_quantity req)
                     (js_price_times (p_price_cents row) (requested_quantity req))
                     (p_stock row - requested_quantity req)
          \<and> db_state w' = committed (db_state w) pid uid (requested_quantity req) row)"
proof (cases "reaches_transaction e req w")
  case False
  from POST_not_reaching[OF False assms] show ?thesis by simp
next
  case True
  then obtain b pid uid where ids: "body req = Some b" "productId b = Some pid"
    "userId b = Some uid"
    by (rule reaches_ids)
  obtain tr d1 where tx:
    "purchase_transaction (db_fault e) pid uid (requested_quantity req) (db_state w) = (tr, d1)"
    by (cases "purchase_transaction (db_fault e) pid uid (requested_quantity req) (db_state w)")
  from POST_reaches[OF True ids] assms tx
  have post: "resp = (case tr of Inl x \<Rightarrow> internal_error | Inr rs \<Rightarrow> rs)" "db_state w' = d1"
    by (auto split: sum.splits)
  from purchase_transaction_cases[OF tx] show ?thesis
  proof (elim disjE exE conjE)
    assume "d1 = db_state w" "\<forall>resp. tr = Inr resp \<longrightarrow> \<not> success resp"
    with post show ?thesis
      by (cases tr) (auto simp: internal_error_def json_response_def)
  next
    fix row
    assume "products (db_state w) pid = Some row" "requested_quantity req \<le> p_stock row"
      "to_varchar_255 uid \<noteq> None"
      "\<bar>p_price_cents row * requested_quantity req\<bar> < 10 ^ 10"
      "tr = Inr (purchase_ok (next_order_id (db_state w)) pid (p_name row) (requested_quantity req)
                  (js_price_times (p_price_cents row) (requested_quantity req))
                  (p_stock row - requested_quantity req))"
      "d1 = committed (db_state w) pid uid (requested_quantity req) row"
    with post ids True show ?thesis by auto
  qed
qed

subsection \<open>Evaluation on concrete inputs\<close>

lemmas run_defs =
  POST_def reaches_transaction_def requested_quantity_def rateLimitMiddleware_def
  checkRateLimit_def getRedisClient_def no_redis_faults_def redis_incr_def redis_expire_def
  redis_ttl_def live_def rate_key_def user_identifier_def ip_identifier_def finalUserId_def
  client_ip_def split_first_def window_seconds_def ip_maxRequests_def ip_windowMs_def allow_def
  truthy_int_def truthy_str_def purchase_transaction_def sql_select_product_def
  sql_update_stock_def sql_insert_order_price int4_def to_varchar_255_def purchase_ok_def
  json_response_def internal_error_def too_many_def retry_or_60_def Let_def

lemmas demo_defs = demo_world_def demo_env_def demo_request_def

subsection \<open>A successful purchase\<close>

text \<open>
  C3: every run of the handler either reports no success and leaves the database as it
  was, or reports success and has done both writes: exactly one order row appended, with
  the status completed, the quantity \<open>q\<close> of the request (1 when the body has no
  \<open>quantity\<close>) and \<open>totalPrice = q \<times> price\<close> (both in hundredths), and the stock of that
  product, which was at least \<open>q\<close>, lowered by exactly \<open>q\<close>; the response reports
  \<open>remainingStock\<close> as the stock before the purchase minus \<open>q\<close>, and as \<open>totalPrice\<close> the
  double product, which is within a relative error of \<open>2\<^sup>-\<^sup>5\<^sup>1\<close> of \<open>q \<times> price\<close>. A run that
  reaches the transaction with no failing statement, for a product whose stock is at
  least \<open>q\<close>, is such a success when the new stock, the product id, the quantity and the
  next order id lie in the 32-bit range of \<^verbatim>\<open>INTEGER\<close>, the user id fits
  \<^verbatim>\<open>VARCHAR(255)\<close> (no character 0, nothing but spaces after the first 255 characters)
  and \<open>q \<times> price\<close> fits \<^verbatim>\<open>DECIMAL(10, 2)\<close> (below \<open>10\<^sup>1\<^sup>0\<close> hundredths).
\<close>

theorem purchase_success_atomic:
  "(\<not> success (fst (POST e req w)) \<and> db_state (snd (POST e req w)) = db_state w
    \<or> (\<exists>b pid uid row q.
          body req = Some b \<and> productId b = Some pid \<and> userId b = Some uid
          \<and> q = (case quantity b of None \<Rightarrow> 1 | Some n \<Rightarrow> n)
          \<and> products (db_state w) pid = Some row \<and> q \<le> p_stock row
          \<and> fst (POST e req w) =
              \<lparr>status = 200, success = True, message = ''Purchase successful'',
               order_field = Some \<lparr>oj_id = next_order_id (db_state w), oj_productId = pid,
                                    oj_productName = p_name row, oj_quantity = q,
                                    oj_totalPrice = js_price_times (p_price_cents row) q,
                                    oj_remainingStock = p_stock row - q\<rparr>,
               headers = []\<rparr>
          \<and> \<bar>js_price_times (p_price_cents row) q - of_int (q * p_price_cents row) / 100\<bar>
              \<le> \<bar>of_int (q * p_price_cents row) / 100\<bar> / 2 ^ 51
          \<and> orders (db_state (snd (POST e req w))) =
              orders (db_state w) @
                [\<lparr>o_id = next_order_id (db_state w), o_user_id = take 255 uid,
                  o_product_id = pid, o_quantity = q,
                  o_total_cents = q * p_price_cents row, o_status = ''completed''\<rparr>]
          \<and> products (db_state (snd (POST e req w))) =
              (products (db_state w))(pid \<mapsto> row\<lparr>p_stock := p_stock row - q\<rparr>)))
   \<and> (reaches_transaction e req w \<and> db_fault e = NoFault
        \<and> (\<exists>b pid uid row. body req = Some b \<and> productId b = Some pid
              \<and> userId b = Some uid \<and> products (db_state w) pid = Some row
              \<and> (case quantity b of None \<Rightarrow> 1 | Some n \<Rightarrow> n) \<le> p_stock row
              \<and> p_stock row - (case quantity b of None \<Rightarrow> 1 | Some n \<Rightarrow> n) \<le> 2147483647
              \<and> - 2147483648 \<le> pid \<and> pid \<le> 2147483647
              \<and> - 2147483648 \<le> (case quantity b of None \<Rightarrow> 1 | Some n \<Rightarrow> n)
              \<and> (case quantity b of None \<Rightarrow> 1 | Some n \<Rightarrow> n) \<le> 2147483647
              \<and> int (next_order_id (db_state w)) \<le> 2147483647
              \<and> CHR 0x00 \<notin> set uid \<and> set (drop 255 uid) \<subseteq> {CHR '' ''}
              \<and> \<bar>(case quantity b of None \<Rightarrow> 1 | Some n \<Rightarrow> n) * p_price_cents row\<bar> < 10 ^ 10)
      \<longrightarrow> success (fst (POST e req w)))"
proof (intro conjI impI)
  obtain resp w' where post: "POST e req w = (resp, w')"
    by (cases "POST e req w")
  from POST_cases[OF post]
  show "\<not> success (fst (POST e req w)) \<and> db_state (snd (POST e req w)) = db_state w
    \<or> (\<exists>b pid uid row q.
          body req = Some b \<and> productId b = Some pid \<and> userId b = Some uid
          \<and> q = (case quantity b of None \<Rightarrow> 1 | Some n \<Rightarrow> n)
          \<and> products (db_state w) pid = Some row \<and> q \<le> p_stock row
          \<and> fst (POST e req w) =
              \<lparr>status = 200, success = True, message = ''Purchase successful'',
               order_field = Some \<lparr>oj_id = next_order_id (db_state w), oj_productId = pid,
                                    oj_productName = p_name row, oj_quantity = q,
                                    oj_totalPrice = js_price_times (p_price_cents row) q,
                                    oj_remainingStock = p_stock row - q\<rparr>,
               headers = []\<rparr>
          \<and> \<bar>js_price_times (p_price_cents row) q - of_int (q * p_price_cents row) / 100\<bar>
              \<le> \<bar>of_int (q * p_price_cents row) / 100\<bar> / 2 ^ 51
          \<and> orders (db_state (snd (POST e req w))) =
              orders (db_state w) @
                [\<lparr>o_id = next_order_id (db_state w), o_user_id = take 255 uid,
                  o_product_id = pid, o_quantity = q,
                  o_total_cents = q * p_price_cents row, o_status = ''completed''\<rparr>]
          \<and> products (db_state (snd (POST e req w))) =
              (products (db_state w))(pid \<mapsto> row\<lparr>p_stock := p_stock row - q\<rparr>))"
  proof (elim disjE exE conjE)
    assume "db_state w' = db_state w" "\<not> success resp"
    with post show ?thesis by simp
  next
    fix b pid uid row
    assume a: "body req = Some b" "productId b = Some pid" "userId b = Some uid"
      "products (db_state w) pid = Some row" "requested_quantity req \<le> p_stock row"
      "resp = purchase_ok (next_order_id (db_state w)) pid (p_name row)
                (requested_quantity req)
                (js_price_times (p_price_cents row) (requested_quantity req))
                (p_stock row - requested_quantity req)"
      "db_state w' = committed (db_state w) pid uid (requested_quantity req) row"
    have rq: "requested_quantity req = (case quantity b of None \<Rightarrow> 1 | Some n \<Rightarrow> n)"
      using a(1) by (simp add: requested_quantity_def)
    let ?q = "requested_quantity req"
    have "fst (POST e req w) =
            \<lparr>status = 200, success = True, message = ''Purchase successful'',
             order_field = Some \<lparr>oj_id = next_order_id (db_state w), oj_productId = pid,
                                  oj_productName = p_name row, oj_quantity = ?q,
                                  oj_totalPrice = js_price_times (p_price_cents row) ?q,
                                  oj_remainingStock = p_stock row - ?q\<rparr>,
             headers = []\<rparr>"
      using post a(6) by (simp add: purchase_ok_def)
    moreover have "\<bar>js_price_times (p_price_cents row) ?q - of_int (?q * p_price_cents row) / 100\<bar>
              \<le> \<bar>of_int (?q * p_price_cents row) / 100\<bar> / 2 ^ 51"
      using js_price_times_close[of "p_price_cents row" ?q] by (simp add: mult.commute)
    moreover have "orders (db_state (snd (POST e req w))) =
              orders (db_state w) @
                [\<lparr>o_id = next_order_id (db_state w), o_user_id = take 255 uid,
                  o_product_id = pid, o_quantity = ?q,
                  o_total_cents = ?q * p_price_cents row, o_status = ''completed''\<rparr>]"
      using post a(7) by (simp add: mult.commute)
    moreover have "products (db_state (snd (POST e req w))) =
              (products (db_state w))(pid \<mapsto> row\<lparr>p_stock := p_stock row - ?q\<rparr>)"
      using post a(7) by simp
    ultimately show ?thesis
      using a(1-5) rq by auto
  qed
next
  assume h: "reaches_transaction e req w \<and> db_fault e = NoFault
        \<and> (\<exists>b pid uid row. body req = Some b \<and> productId b = Some pid
              \<and> userId b = Some uid \<and> products (db_state w) pid = Some row
              \<and> (case quantity b of None \<Rightarrow> 1 | Some n \<Rightarrow> n) \<le> p_stock row
              \<and> p_stock row - (case quantity b of None \<Rightarrow> 1 | Some n \<Rightarrow> n) \<le> 2147483647
              \<and> - 2147483648 \<le> pid \<and> pid \<le> 2147483647
              \<and> - 2147483648 \<le> (case quantity b of None \<Rightarrow> 1 | Some n \<Rightarrow> n)
              \<and> (case quantity b of None \<Rightarrow> 1 | Some n \<Rightarrow> n) \<le> 2147483647
              \<and> int (next_order_id (db_state w)) \<le> 2147483647
              \<and> CHR 0x00 \<notin> set uid \<and> set (drop 255 uid) \<subseteq> {CHR '' ''}
              \<and> \<bar>(case quantity b of None \<Rightarrow> 1 | Some n \<Rightarrow> n) * p_price_cents row\<bar> < 10 ^ 10)"
  then obtain b pid uid row where b: "body req = Some b" "productId b = Some pid"
    "userId b = Some uid" "products (db_state w) pid = Some row"
    and fits0: "(case quantity b of None \<Rightarrow> 1 | Some n \<Rightarrow> n) \<le> p_stock row"
      "p_stock row - (case quantity b of None \<Rightarrow> 1 | Some n \<Rightarrow> n) \<le> 2147483647"
      "- 2147483648 \<le> pid" "pid \<le> 2147483647"
      "- 2147483648 \<le> (case quantity b of None \<Rightarrow> 1 | Some n \<Rightarrow> n)"
      "(case quantity b of None \<Rightarrow> 1 | Some n \<Rightarrow> n) \<le> 2147483647"
      "int (next_order_id (db_state w)) \<le> 2147483647"
      "CHR 0x00 \<notin> set uid" "set (drop 255 uid) \<subseteq> {CHR '' ''}"
      "\<bar>(case quantity b of None \<Rightarrow> 1 | Some n \<Rightarrow> n) * p_price_cents row\<bar> < 10 ^ 10"
    by blast
  have v: "to_varchar_255 uid \<noteq> None"
    using fits0(8,9) varchar_fits_iff[of uid] by blast
  from fits0 have "(case quantity b of None \<Rightarrow> 1 | Some n \<Rightarrow> n) \<le> p_stock row"
      "int4 (p_stock row - (case quantity b of None \<Rightarrow> 1 | Some n \<Rightarrow> n))"
      "int4 pid" "int4 (case quantity b of None \<Rightarrow> 1 | Some n \<Rightarrow> n)"
      "int4 (int (next_order_id (db_state w)))"
      "\<bar>(case quantity b of None \<Rightarrow> 1 | Some n \<Rightarrow> n) * p_price_cents row\<bar> < 10 ^ 10"
    by (simp_all add: int4_def)
  note fits = this v
  have rq: "requested_quantity req = (case quantity b of None \<Rightarrow> 1 | Some n \<Rightarrow> n)"
    using b(1) by (simp add: requested_quantity_def)
  from h have "reaches_transaction e req w" "db_fault e = NoFault" by simp_all
  from POST_reaches[OF this(1) b(1-3)] this(2) b(4) fits rq
  show "success (fst (POST e req w))"
    by (simp add: purchase_transaction_no_fault purchase_ok_def mult.commute)
qed

theorem purchase_success_atomic_witness:
  "reaches_transaction demo_env (demo_request (Some 1) (Some ''u1'') None) demo_world
   \<and> status (fst (POST demo_env (demo_request (Some 1) (Some ''u1'') None) demo_world)) = 200
   \<and> map_option oj_remainingStock
       (order_field (fst (POST demo_env (demo_request (Some 1) (Some ''u1'') None) demo_world)))
       = Some 4
   \<and> orders (db_state (snd (POST demo_env (demo_request (Some 1) (Some ''u1'') None) demo_world))) =
       [\<lparr>o_id = 1, o_user_id = ''u1'', o_product_id = 1, o_quantity = 1,
         o_total_cents = 1999, o_status = ''completed''\<rparr>]
   \<and> products (db_state (snd (POST demo_env (demo_request (Some 1) (Some ''u1'') None) demo_world))) 1 =
       Some \<lparr>p_name = ''widget'', p_stock = 4, p_price_cents = 1999\<rparr>"
proof -
  let ?rq = "demo_request (Some 1) (Some ''u1'') None"
  have r: "reaches_transaction demo_env ?rq demo_world"
    by (simp add: run_defs demo_defs)
  have h: "reaches_transaction demo_env ?rq demo_world \<and> db_fault demo_env = NoFault
     \<and> (\<exists>b pid uid row. body ?rq = Some b \<and> productId b = Some pid
           \<and> userId b = Some uid \<and> products (db_state demo_world) pid = Some row
           \<and> (case quantity b of None \<Rightarrow> 1 | Some n \<Rightarrow> n) \<le> p_stock row
           \<and> p_stock row - (case quantity b of None \<Rightarrow> 1 | Some n \<Rightarrow> n) \<le> 2147483647
           \<and> - 2147483648 \<le> pid \<and> pid \<le> 2147483647
           \<and> - 2147483648 \<le> (case quantity b of None \<Rightarrow> 1 | Some n \<Rightarrow> n)
              \<and> (case quantity b of None \<Rightarrow> 1 | Some n \<Rightarrow> n) \<le> 2147483647
           \<and> int (next_order_id (db_state demo_world)) \<le> 2147483647
           \<and> CHR 0x00 \<notin> set uid \<and> set (drop 255 uid) \<subseteq> {CHR '' ''}
           \<and> \<bar>(case quantity b of None \<Rightarrow> 1 | Some n \<Rightarrow> n) * p_price_cents row\<bar> < 10 ^ 10)"
    using r by (simp add: demo_defs)
  from purchase_success_atomic[of demo_env ?rq demo_world] h
  have s: "success (fst (POST demo_env ?rq demo_world))"
    by blast
  with purchase_success_atomic[of demo_env ?rq demo_world]
  obtain b pid uid row q where
    "body ?rq = Some b" "productId b = Some pid"
    "userId b = Some uid" "q = (case quantity b of None \<Rightarrow> 1 | Some n \<Rightarrow> n)"
    "products (db_state demo_world) pid = Some row"
    "fst (POST demo_env ?rq demo_world) =
              \<lparr>status = 200, success = True, message = ''Purchase successful'',
               order_field = Some \<lparr>oj_id = next_order_id (db_state demo_world), oj_productId = pid,
                                    oj_productName = p_name row, oj_quantity = q,
                                    oj_totalPrice = js_price_times (p_price_cents row) q,
                                    oj_remainingStock = p_stock row - q\<rparr>,
               headers = []\<rparr>"
    "orders (db_state (snd (POST demo_env ?rq demo_world))) =
              orders (db_state demo_world) @
                [\<lparr>o_id = next_order_id (db_state demo_world), o_user_id = take 255 uid,
                  o_product_id = pid, o_quantity = q,
                  o_total_cents = q * p_price_cents row, o_status = ''completed''\<rparr>]"
    "products (db_state (snd (POST demo_env ?rq demo_world))) =
              (products (db_state demo_world))(pid \<mapsto> row\<lparr>p_stock := p_stock row - q\<rparr>)"
    by blast
  then show ?thesis
    using r by (auto simp: demo_defs)
qed

subsection \<open>Out of stock\<close>

text \<open>
  C4: a purchase request against an existing product whose stock is strictly less than
  the requested quantity leaves the database as it was (no stock change, no order row),
  and when the run reaches the transaction and neither the read of the product row nor
  the rollback fails, the response is the payload \<open>{ success: false, message: "Out of stock" }\<close> with
  the status 200 of the success path.
\<close>

theorem out_of_stock_outcome:
  assumes "body req = Some b" "productId b = Some pid"
    and "products (db_state w) pid = Some row"
    and "p_stock row < (case quantity b of None \<Rightarrow> 1 | Some n \<Rightarrow> n)"
  shows "db_state (snd (POST e req w)) = db_state w
    \<and> (reaches_transaction e req w \<and> db_fault e \<notin> {PoolFails, BeginFails, SelectFails, RollbackFails}
       \<longrightarrow> fst (POST e req w) =
             \<lparr>status = 200, success = False, message = ''Out of stock'', order_field = None,
              headers = []\<rparr>)"
proof (intro conjI impI)
  have rq: "requested_quantity req = (case quantity b of None \<Rightarrow> 1 | Some n \<Rightarrow> n)"
    using assms(1) by (simp add: requested_quantity_def)
  obtain resp w' where post: "POST e req w = (resp, w')"
    by (cases "POST e req w")
  from POST_cases[OF post] assms rq post
  show "db_state (snd (POST e req w)) = db_state w"
    by auto
  assume h: "reaches_transaction e req w \<and> db_fault e \<notin> {PoolFails, BeginFails, SelectFails, RollbackFails}"
  then obtain uid where uid: "userId b = Some uid"
    using assms(1) by (auto elim: reaches_ids)
  from h have "reaches_transaction e req w"
    and f: "db_fault e \<notin> {PoolFails, BeginFails, SelectFails, RollbackFails}" by simp_all
  from POST_reaches[OF this(1) assms(1,2) uid]
    purchase_transaction_early(2)[OF f assms(3), of "requested_quantity req" uid] assms(4) rq
  show "fst (POST e req w) =
          \<lparr>status = 200, success = False, message = ''Out of stock'', order_field = None,
           headers = []\<rparr>"
    by (simp add: json_response_def)
qed

theorem out_of_stock_outcome_witness:
  "reaches_transaction demo_env (demo_request (Some 1) (Some ''u1'') (Some 6)) demo_world
   \<and> db_state (snd (POST demo_env (demo_request (Some 1) (Some ''u1'') (Some 6)) demo_world)) =
       db_state demo_world
   \<and> fst (POST demo_env (demo_request (Some 1) (Some ''u1'') (Some 6)) demo_world) =
       \<lparr>status = 200, success = False, message = ''Out of stock'', order_field = None,
        headers = []\<rparr>"
proof -
  have r: "reaches_transaction demo_env (demo_request (Some 1) (Some ''u1'') (Some 6)) demo_world"
    by (simp add: run_defs demo_defs)
  have f: "db_fault demo_env \<notin> {PoolFails, BeginFails, SelectFails, RollbackFails}"
    by (simp add: demo_defs)
  have "body (demo_request (Some 1) (Some ''u1'') (Some 6)) =
          Some \<lparr>productId = Some 1, userId = Some ''u1'', quantity = Some 6\<rparr>"
    by (simp add: demo_defs)
  from out_of_stock_outcome[OF this, of 1 demo_world
      "\<lparr>p_name = ''widget'', p_stock = 5, p_price_cents = 1999\<rparr>" demo_env] r f
  show ?thesis
    by (simp add: demo_world_def)
qed

subsection \<open>Unknown product\<close>

text \<open>
  C5 as stated fails: \<open>productId\<close> is any integer, the key of \<open>products\<close> an \<^verbatim>\<open>INTEGER\<close>.
  The request for the product 2147483648, which no table can hold, reaches the
  transaction with no fault of the store; the \<^verbatim>\<open>SELECT\<close> is refused and the answer is the
  status 500.
\<close>

theorem product_id_out_of_range_counterexample:
  "products (db_state demo_world) 2147483648 = None
   \<and> reaches_transaction demo_env (demo_request (Some 2147483648) (Some ''u1'') None) demo_world
   \<and> db_fault demo_env = NoFault
   \<and> status (fst (POST demo_env (demo_request (Some 2147483648) (Some ''u1'') None) demo_world))
       = 500"
  by (simp add: run_defs demo_defs)

text \<open>
  C5, amended: a purchase request whose \<open>productId\<close> refers to no existing product leaves
  the database as it was (no order row, no stock changed). When the run reaches the
  transaction, the response has the not-found status 404 if the \<open>productId\<close> lies in the
  32-bit range of \<^verbatim>\<open>INTEGER\<close> and neither the read of the product row nor the
  rollback fails, and the status 500 if the \<open>productId\<close> lies outside that range.
\<close>

theorem product_not_found:
  assumes "body req = Some b" "productId b = Some pid"
    and "products (db_state w) pid = None"
  shows "db_state (snd (POST e req w)) = db_state w
    \<and> (reaches_transaction e req w
        \<and> db_fault e \<notin> {PoolFails, BeginFails, SelectFails, RollbackFails}
        \<and> - 2147483648 \<le> pid \<and> pid \<le> 2147483647
       \<longrightarrow> fst (POST e req w) =
             \<lparr>status = 404, success = False, message = ''Product not found'', order_field = None,
              headers = []\<rparr>)
    \<and> (reaches_transaction e req w \<and> (pid < - 2147483648 \<or> 2147483647 < pid)
       \<longrightarrow> fst (POST e req w) =
             \<lparr>status = 500, success = False, message = ''Internal server error'',
              order_field = None, headers = []\<rparr>)"
proof (intro conjI impI)
  obtain resp w' where post: "POST e req w = (resp, w')"
    by (cases "POST e req w")
  from POST_cases[OF post] assms post
  show "db_state (snd (POST e req w)) = db_state w"
    by auto
next
  assume h: "reaches_transaction e req w
        \<and> db_fault e \<notin> {PoolFails, BeginFails, SelectFails, RollbackFails}
        \<and> - 2147483648 \<le> pid \<and> pid \<le> 2147483647"
  then obtain uid where uid: "userId b = Some uid"
    using assms(1) by (auto elim: reaches_ids)
  from h have "reaches_transaction e req w"
    and f: "db_fault e \<notin> {PoolFails, BeginFails, SelectFails, RollbackFails}"
    and i: "int4 pid" by (simp_all add: int4_def)
  from POST_reaches[OF this(1) assms(1,2) uid]
    purchase_transaction_early(1)[OF f assms(3) i, of uid "requested_quantity req"]
  show "fst (POST e req w) =
          \<lparr>status = 404, success = False, message = ''Product not found'', order_field = None,
           headers = []\<rparr>"
    by (simp add: json_response_def)
next
  assume h: "reaches_transaction e req w \<and> (pid < - 2147483648 \<or> 2147483647 < pid)"
  then obtain uid where uid: "userId b = Some uid"
    using assms(1) by (auto elim: reaches_ids)
  from h have r: "reaches_transaction e req w" and i: "\<not> int4 pid"
    by (auto simp: int4_def)
  have "fst (purchase_transaction (db_fault e) pid uid (requested_quantity req) (db_state w))
          = Inl DatabaseError"
    using assms(3) i by (simp add: purchase_transaction_def sql_select_product_def)
  with POST_reaches[OF r assms(1,2) uid]
  show "fst (POST e req w) =
          \<lparr>status = 500, success = False, message = ''Internal server error'',
           order_field = None, headers = []\<rparr>"
    by (simp add: internal_error_def json_response_def split: prod.splits)
qed

theorem product_not_found_witness:
  "reaches_transaction demo_env (demo_request (Some 2) (Some ''u1'') None) demo_world
   \<and> db_state (snd (POST demo_env (demo_request (Some 2) (Some ''u1'') None) demo_world)) =
       db_state demo_world
   \<and> fst (POST demo_env (demo_request (Some 2) (Some ''u1'') None) demo_world) =
       \<lparr>status = 404, success = False, message = ''Product not found'', order_field = None,
        headers = []\<rparr>"
proof -
  have r: "reaches_transaction demo_env (demo_request (Some 2) (Some ''u1'') None) demo_world"
    by (simp add: run_defs demo_defs)
  have f: "db_fault demo_env \<notin> {PoolFails, BeginFails, SelectFails, RollbackFails}"
    by (simp add: demo_defs)
  have b: "body (demo_request (Some 2) (Some ''u1'') None) =
          Some \<lparr>productId = Some 2, userId = Some ''u1'', quantity = None\<rparr>"
    by (simp add: demo_defs)
  have "products (db_state demo_world) 2 = None"
    by (simp add: demo_defs)
  from product_not_found[OF b _ this, of demo_env] r f
  show ?thesis
    by simp
qed

subsection \<open>Validation of the request\<close>

text \<open>
  C6 as stated fails: the handler never looks at \<open>quantity\<close>. A request for the quantity
  \<open>-2\<close> runs the transaction, is answered with success, creates an order row and raises
  the stock from 5 to 7.
\<close>

theorem quantity_not_validated_counterexample:
  "status (fst (POST demo_env (demo_request (Some 1) (Some ''u1'') (Some (- 2))) demo_world)) = 200
   \<and> success (fst (POST demo_env (demo_request (Some 1) (Some ''u1'') (Some (- 2))) demo_world))
   \<and> stock_of (snd (POST demo_env (demo_request (Some 1) (Some ''u1'') (Some (- 2))) demo_world)) 1
       = Some 7
   \<and> map o_quantity
       (orders (db_state (snd (POST demo_env (demo_request (Some 1) (Some ''u1'') (Some (- 2)))
                                  demo_world)))) = [- 2]"
  by (simp add: run_defs demo_defs stock_of_def)

text \<open>
  C6, amended: a request whose body lacks \<open>productId\<close> or \<open>userId\<close> (the key is absent, or
  holds 0 or the empty string) never changes the database; once both rate-limit tiers
  have passed it is answered with the bad-request status 400; and no transaction is
  started: the run is the same whichever database statement would fail.
\<close>

theorem missing_ids_rejected:
  assumes "body req = Some b"
    and "\<not> truthy_int (productId b) \<or> \<not> truthy_str (userId b)"
  shows "db_state (snd (POST e req w)) = db_state w
    \<and> (fst (rateLimitMiddleware (now e) (user_faults e) (ip_faults e) req 5 60000 (userId b)
               (redis_state w)) = Inr None
       \<longrightarrow> fst (POST e req w) =
             \<lparr>status = 400, success = False, message = ''Missing productId or userId'',
              order_field = None, headers = []\<rparr>)
    \<and> POST (e\<lparr>db_fault := flt\<rparr>) req w = POST e req w"
proof -
  have nr: "\<not> reaches_transaction e req w"
    using assms by (auto simp: reaches_transaction_def)
  obtain resp w' where post: "POST e req w = (resp, w')"
    by (cases "POST e req w")
  from POST_not_reaching[OF nr post] post
  have 1: "db_state (snd (POST e req w)) = db_state w" by simp
  have 2: "fst (rateLimitMiddleware (now e) (user_faults e) (ip_faults e) req 5 60000 (userId b)
               (redis_state w)) = Inr None
       \<longrightarrow> fst (POST e req w) =
             \<lparr>status = 400, success = False, message = ''Missing productId or userId'',
              order_field = None, headers = []\<rparr>"
    using assms
    by (cases "rateLimitMiddleware (now e) (user_faults e) (ip_faults e) req 5 60000 (userId b)
               (redis_state w)")
       (auto simp: POST_def json_response_def)
  have 3: "POST (e\<lparr>db_fault := flt\<rparr>) req w = POST e req w"
    using assms
    by (auto simp: POST_def split: prod.splits sum.splits option.splits)
  from 1 2 3 show ?thesis by simp
qed

theorem missing_ids_rejected_witness:
  "db_state (snd (POST demo_env (demo_request None (Some ''u1'') (Some 1)) demo_world)) =
     db_state demo_world
   \<and> fst (POST demo_env (demo_request None (Some ''u1'') (Some 1)) demo_world) =
       \<lparr>status = 400, success = False, message = ''Missing productId or userId'',
        order_field = None, headers = []\<rparr>
   \<and> POST (demo_env\<lparr>db_fault := BeginFails\<rparr>) (demo_request None (Some ''u1'') (Some 1)) demo_world
       = POST demo_env (demo_request None (Some ''u1'') (Some 1)) demo_world"
proof -
  have b: "body (demo_request None (Some ''u1'') (Some 1)) =
          Some \<lparr>productId = None, userId = Some ''u1'', quantity = Some 1\<rparr>"
    by (simp add: demo_defs)
  have t: "\<not> truthy_int (productId \<lparr>productId = None, userId = Some ''u1'', quantity = Some 1\<rparr>)
      \<or> \<not> truthy_str (userId \<lparr>productId = None, userId = Some ''u1'', quantity = Some 1\<rparr>)"
    by (simp add: truthy_int_def)
  have m: "fst (rateLimitMiddleware (now demo_env) (user_faults demo_env) (ip_faults demo_env)
             (demo_request None (Some ''u1'') (Some 1)) 5 60000
             (userId \<lparr>productId = None, userId = Some ''u1'', quantity = Some 1\<rparr>)
             (redis_state demo_world)) = Inr None"
    by (simp add: run_defs demo_defs)
  from missing_ids_rejected[OF b t, of demo_env demo_world BeginFails] m
  show ?thesis by simp
qed

subsection \<open>Purchases applied one at a time\<close>

lemma run_append: "run (xs @ ys) w = run ys (run xs w)"
  by (induction xs arbitrary: w) auto

lemma run_take_Suc:
  assumes "k < length ops"
  shows "run (take (Suc k) ops) w =
           snd (POST (fst (ops ! k)) (snd (ops ! k)) (run (take k ops) w))"
proof -
  have "take (Suc k) ops = take k ops @ [ops ! k]"
    using assms by (simp add: take_Suc_conv_app_nth)
  then show ?thesis
    by (cases "ops ! k") (simp add: run_append)
qed

lemma sold_snoc:
  "sold pid (os @ [x]) = sold pid os + (if o_product_id x = pid then o_quantity x else 0)"
  by (simp add: sold_def)

lemma POST_success_iff:
  assumes "reaches_transaction e req w" "db_fault e = NoFault"
    and "body req = Some b" "productId b = Some pid" "userId b = Some uid"
    and "products (db_state w) pid = Some row"
  shows "success (fst (POST e req w)) \<longleftrightarrow>
           requested_quantity req \<le> p_stock row
           \<and> int4 (p_stock row - requested_quantity req)
           \<and> (CHR 0x00 \<notin> set uid \<and> set (drop 255 uid) \<subseteq> {CHR '' ''})
           \<and> \<bar>p_price_cents row * requested_quantity req\<bar> < 10 ^ 10 \<and> int4 pid
           \<and> int4 (requested_quantity req) \<and> int4 (int (next_order_id (db_state w)))"
  unfolding varchar_fits_iff[symmetric]
  using POST_reaches[OF assms(1,3,4,5)] assms(2,6)
  by (auto simp: purchase_transaction_no_fault purchase_ok_def json_response_def
      internal_error_def)

lemma POST_keeps_balance:
  assumes "0 < requested_quantity req"
    and "products (db_state w) pid = Some row" "0 \<le> p_stock row"
  shows "\<exists>row'. products (db_state (snd (POST e req w))) pid = Some row' \<and> 0 \<le> p_stock row'
           \<and> p_stock row' \<le> p_stock row
           \<and> p_stock row' + sold pid (orders (db_state (snd (POST e req w)))) =
               p_stock row + sold pid (orders (db_state w))"
proof -
  obtain resp w' where post: "POST e req w = (resp, w')"
    by (cases "POST e req w")
  from POST_cases[OF post] show ?thesis
  proof (elim disjE exE conjE)
    assume "db_state w' = db_state w"
    with post assms show ?thesis by simp
  next
    fix b pid' uid row'
    assume a: "products (db_state w) pid' = Some row'" "requested_quantity req \<le> p_stock row'"
      "db_state w' = committed (db_state w) pid' uid (requested_quantity req) row'"
    show ?thesis
    proof (cases "pid' = pid")
      case True
      with a assms post show ?thesis
        by (simp add: sold_snoc)
    next
      case False
      with a assms post show ?thesis
        by (simp add: sold_snoc)
    qed
  qed
qed

lemma run_keeps_balance:
  assumes "\<forall>(e, rq) \<in> set ops. 0 < requested_quantity rq"
    and "products (db_state w) pid = Some row" "0 \<le> p_stock row"
  shows "\<exists>row'. products (db_state (run ops w)) pid = Some row' \<and> 0 \<le> p_stock row'
           \<and> p_stock row' \<le> p_stock row
           \<and> p_stock row' + sold pid (orders (db_state (run ops w))) =
               p_stock row + sold pid (orders (db_state w))"
  using assms
proof (induction ops arbitrary: w row)
  case Nil
  then show ?case by simp
next
  case (Cons x ops)
  obtain e rq where x: "x = (e, rq)" by (cases x)
  with Cons.prems have q: "0 < requested_quantity rq" by simp
  from POST_keeps_balance[OF q Cons.prems(2,3), of e]
  obtain row1 where r1: "products (db_state (snd (POST e rq w))) pid = Some row1"
    "0 \<le> p_stock row1" "p_stock row1 \<le> p_stock row"
    "p_stock row1 + sold pid (orders (db_state (snd (POST e rq w)))) =
       p_stock row + sold pid (orders (db_state w))"
    by blast
  from Cons.prems(1) have "\<forall>(e, rq) \<in> set ops. 0 < requested_quantity rq" by simp
  from Cons.IH[OF this r1(1,2)] r1(3,4) x show ?case
    by auto
qed

text \<open>
  C2 as stated fails in its last part: stock that covers the quantity is not enough for
  a purchase to succeed. With 5 in stock at the price 99999999.99, the request for 2
  reaches the transaction with no fault of the store, yet the total 199999999.98 does
  not fit \<^verbatim>\<open>DECIMAL(10, 2)\<close>: the \<^verbatim>\<open>INSERT\<close> is refused, the transaction rolled back and the
  request answered with the status 500.
\<close>

theorem stock_not_sufficient_counterexample:
  "stock_of demo_dear_world 1 = Some 5
   \<and> requested_quantity (demo_request (Some 1) (Some ''u1'') (Some 2)) = 2
   \<and> reaches_transaction demo_env (demo_request (Some 1) (Some ''u1'') (Some 2)) demo_dear_world
   \<and> db_fault demo_env = NoFault
   \<and> \<not> success (fst (POST demo_env (demo_request (Some 1) (Some ''u1'') (Some 2))
                         demo_dear_world))
   \<and> status (fst (POST demo_env (demo_request (Some 1) (Some ''u1'') (Some 2)) demo_dear_world))
       = 500
   \<and> db_state (snd (POST demo_env (demo_request (Some 1) (Some ''u1'') (Some 2)) demo_dear_world))
       = db_state demo_dear_world"
  by (simp add: run_defs demo_defs demo_dear_world_def stock_of_def)

text \<open>
  C2, amended: purchase requests with positive quantities are applied one at a time,
  each in any environment, to a product \<open>pid\<close> whose key is an \<^verbatim>\<open>INTEGER\<close> and whose
  stock \<open>S\<close> is a non-negative \<^verbatim>\<open>INTEGER\<close> (at most 2147483647). After every one of them the stock of \<open>pid\<close> is at least 0 and
  equals \<open>S\<close> minus the quantities of the order rows committed for \<open>pid\<close> since the start;
  and a request for \<open>pid\<close> that reaches the transaction with no fault of the store
  succeeds exactly when the stock at its turn is at least its quantity and the order
  row fits its table: the user id fits \<^verbatim>\<open>VARCHAR(255)\<close> (no character 0, nothing
  but spaces after the first 255 characters), quantity \<open>\<times>\<close> price fits
  \<^verbatim>\<open>DECIMAL(10, 2)\<close> (below \<open>10\<^sup>8\<close>, that is \<open>10\<^sup>1\<^sup>0\<close> hundredths) and the next order id
  fits \<^verbatim>\<open>INTEGER\<close> (at most 2147483647).
\<close>

theorem stock_never_negative:
  assumes "products (db_state w0) pid = Some row0" "0 \<le> p_stock row0"
    and "p_stock row0 \<le> 2147483647" "- 2147483648 \<le> pid" "pid \<le> 2147483647"
    and "\<forall>(e, rq) \<in> set ops. 0 < requested_quantity rq"
  shows "(\<forall>k \<le> length ops. \<exists>s.
            stock_of (run (take k ops) w0) pid = Some s \<and> 0 \<le> s
            \<and> s = p_stock row0 - (sold pid (orders (db_state (run (take k ops) w0)))
                                   - sold pid (orders (db_state w0))))
    \<and> (\<forall>k < length ops. \<forall>row b uid.
          products (db_state (run (take k ops) w0)) pid = Some row
          \<and> reaches_transaction (fst (ops ! k)) (snd (ops ! k)) (run (take k ops) w0)
          \<and> db_fault (fst (ops ! k)) = NoFault
          \<and> body (snd (ops ! k)) = Some b \<and> productId b = Some pid \<and> userId b = Some uid
          \<longrightarrow> (success (fst (POST (fst (ops ! k)) (snd (ops ! k)) (run (take k ops) w0)))
                \<longleftrightarrow> requested_quantity (snd (ops ! k)) \<le> p_stock row
                    \<and> CHR 0x00 \<notin> set uid \<and> set (drop 255 uid) \<subseteq> {CHR '' ''}
                    \<and> \<bar>requested_quantity (snd (ops ! k)) * p_price_cents row\<bar> < 10 ^ 10
                    \<and> int (next_order_id (db_state (run (take k ops) w0))) \<le> 2147483647))"
proof (intro conjI allI impI)
  fix k
  assume "k \<le> length ops"
  have "\<forall>(e, rq) \<in> set (take k ops). 0 < requested_quantity rq"
    using assms(6) by (auto dest: in_set_takeD)
  from run_keeps_balance[OF this assms(1,2)]
  show "\<exists>s. stock_of (run (take k ops) w0) pid = Some s \<and> 0 \<le> s
            \<and> s = p_stock row0 - (sold pid (orders (db_state (run (take k ops) w0)))
                                   - sold pid (orders (db_state w0)))"
    by (auto simp: stock_of_def)
next
  fix k row b uid
  let ?w = "run (take k ops) w0"
  let ?q = "requested_quantity (snd (ops ! k))"
  assume k: "k < length ops"
    and h: "products (db_state ?w) pid = Some row
          \<and> reaches_transaction (fst (ops ! k)) (snd (ops ! k)) ?w
          \<and> db_fault (fst (ops ! k)) = NoFault
          \<and> body (snd (ops ! k)) = Some b \<and> productId b = Some pid \<and> userId b = Some uid"
  have "\<forall>(e, rq) \<in> set (take k ops). 0 < requested_quantity rq"
    using assms(6) by (auto dest: in_set_takeD)
  from run_keeps_balance[OF this assms(1,2)] h
  have s: "0 \<le> p_stock row" "p_stock row \<le> p_stock row0" by auto
  have "ops ! k \<in> set ops" using k by simp
  with assms(6) have q: "0 < ?q" by (cases "ops ! k") auto
  from h have "reaches_transaction (fst (ops ! k)) (snd (ops ! k)) ?w"
    "db_fault (fst (ops ! k)) = NoFault" "body (snd (ops ! k)) = Some b"
    "productId b = Some pid" "userId b = Some uid" "products (db_state ?w) pid = Some row"
    by simp_all
  from POST_success_iff[OF this] s q assms(3,4,5)
  show "success (fst (POST (fst (ops ! k)) (snd (ops ! k)) ?w))
          \<longleftrightarrow> ?q \<le> p_stock row \<and> CHR 0x00 \<notin> set uid \<and> set (drop 255 uid) \<subseteq> {CHR '' ''}
              \<and> \<bar>?q * p_price_cents row\<bar> < 10 ^ 10
              \<and> int (next_order_id (db_state ?w)) \<le> 2147483647"
    by (auto simp: int4_def mult.commute)
qed

lemma demo_first_purchase:
  "POST demo_env (demo_request (Some 1) (Some ''u1'') (Some 3)) demo_world =
     (purchase_ok 1 1 ''widget'' 3 (js_price_times 1999 3) 2,
      \<lparr>redis_state =
         \<lparr>redisClient = True,
          kv = [''rate_limit:user:u1'' \<mapsto> \<lparr>cnt = 1, expiry = Some 60000\<rparr>,
                ''rate_limit:ip:unknown'' \<mapsto> \<lparr>cnt = 1, expiry = Some 60000\<rparr>]\<rparr>,
       db_state =
         \<lparr>products = [1 \<mapsto> \<lparr>p_name = ''widget'', p_stock = 2, p_price_cents = 1999\<rparr>],
          orders = [\<lparr>o_id = 1, o_user_id = ''u1'', o_product_id = 1, o_quantity = 3,
                     o_total_cents = 5997, o_status = ''completed''\<rparr>],
          next_order_id = 2\<rparr>\<rparr>)"
  by (simp add: run_defs demo_defs)

theorem stock_never_negative_witness:
  "length demo_ops = 2
   \<and> 0 < requested_quantity (snd (demo_ops ! 0))
   \<and> 0 < requested_quantity (snd (demo_ops ! 1))
   \<and> success (fst (POST (fst (demo_ops ! 0)) (snd (demo_ops ! 0))
                     (run (take 0 demo_ops) demo_world)))
   \<and> stock_of (run demo_ops demo_world) 1 = Some 2
   \<and> sold 1 (orders (db_state (run demo_ops demo_world))) = 3
   \<and> \<not> success (fst (POST (fst (demo_ops ! 1)) (snd (demo_ops ! 1))
                         (run (take 1 demo_ops) demo_world)))"
proof -
  have h1: "products (db_state demo_world) 1 =
              Some \<lparr>p_name = ''widget'', p_stock = 5, p_price_cents = 1999\<rparr>"
    by (simp add: demo_defs)
  have h3: "\<forall>(e, rq) \<in> set demo_ops. 0 < requested_quantity rq"
    by (simp add: demo_ops_def demo_defs requested_quantity_def)
  note T = stock_never_negative[OF h1 _ _ _ _ h3]
  have w1: "run (take 1 demo_ops) demo_world =
              snd (POST demo_env (demo_request (Some 1) (Some ''u1'') (Some 3)) demo_world)"
    by (simp add: demo_ops_def)
  have r1: "reaches_transaction (fst (demo_ops ! 0)) (snd (demo_ops ! 0))
              (run (take 0 demo_ops) demo_world)"
    by (simp add: run_defs demo_defs demo_ops_def)
  have r2: "reaches_transaction (fst (demo_ops ! 1)) (snd (demo_ops ! 1))
              (run (take 1 demo_ops) demo_world)"
    unfolding w1 demo_first_purchase by (simp add: run_defs demo_defs demo_ops_def)
  have p2: "products (db_state (run (take 1 demo_ops) demo_world)) 1 =
              Some \<lparr>p_name = ''widget'', p_stock = 2, p_price_cents = 1999\<rparr>"
    unfolding w1 demo_first_purchase by simp
  have o2: "sold 1 (orders (db_state (run demo_ops demo_world))) = 3"
    by (simp add: demo_ops_def demo_first_purchase)
       (simp add: run_defs demo_defs sold_def)
  from T[THEN conjunct2, rule_format, of 0
      "\<lparr>p_name = ''widget'', p_stock = 5, p_price_cents = 1999\<rparr>"
      "\<lparr>productId = Some 1, userId = Some ''u1'', quantity = Some 3\<rparr>" "''u1''"] r1
  have ok: "success (fst (POST (fst (demo_ops ! 0)) (snd (demo_ops ! 0))
                        (run (take 0 demo_ops) demo_world)))"
    by (simp add: demo_ops_def demo_defs requested_quantity_def)
  from T[THEN conjunct2, rule_format, of 1
      "\<lparr>p_name = ''widget'', p_stock = 2, p_price_cents = 1999\<rparr>"
      "\<lparr>productId = Some 1, userId = Some ''u2'', quantity = Some 3\<rparr>" "''u2''"] p2 r2
  have ns: "\<not> success (fst (POST (fst (demo_ops ! 1)) (snd (demo_ops ! 1))
                              (run (take 1 demo_ops) demo_world)))"
    by (simp add: demo_ops_def demo_defs requested_quantity_def)
  from T[THEN conjunct1, rule_format, of 2] o2
  have "stock_of (run demo_ops demo_world) 1 = Some 2"
    by (simp add: demo_ops_def demo_world_def sold_def)
  with o2 ok ns show ?thesis
    by (simp add: demo_ops_def demo_defs requested_quantity_def)
qed

subsection \<open>One call of the rate limiter\<close>

lemma window_seconds_pos: "0 < w \<Longrightarrow> 0 < window_seconds w"
  unfolding window_seconds_def by linarith

lemma ttl_of_full_window: "0 < s \<Longrightarrow> int ((nat s * 1000 + 500) div 1000) = s"
  by (simp add: nat_mult_distrib div_add1_eq flip: of_nat_mult)

lemma checkRateLimit_other_key:
  assumes "k \<noteq> rate_key (ident opts)"
  shows "kv (snd (checkRateLimit t f opts r)) k = kv r k"
  using assms
  by (auto simp: checkRateLimit_def getRedisClient_def redis_incr_def redis_expire_def Let_def
      split: option.splits prod.splits if_splits)

lemma checkRateLimit_first_hit:
  assumes "live t (kv r (rate_key (ident opts))) = None" "0 < windowMs opts"
  shows "checkRateLimit t no_redis_faults opts r =
     (if 1 \<le> maxRequests opts then Inr allow
      else Inr \<lparr>allowed = False, retryAfter = Some (window_seconds (windowMs opts))\<rparr>,
      \<lparr>redisClient = True,
       kv = (kv r)(rate_key (ident opts) \<mapsto>
              \<lparr>cnt = 1, expiry = Some (t + nat (window_seconds (windowMs opts)) * 1000)\<rparr>)\<rparr>)"
  using assms window_seconds_pos[OF assms(2)]
  by (auto simp: checkRateLimit_def getRedisClient_def no_redis_faults_def redis_incr_def
      redis_expire_def redis_ttl_def live_def Let_def ttl_of_full_window)

lemma checkRateLimit_later_hit:
  assumes "kv r (rate_key (ident opts)) = Some \<lparr>cnt = c, expiry = Some d\<rparr>" "t < d" "c \<noteq> 0"
  shows "checkRateLimit t no_redis_faults opts r =
     (if c + 1 \<le> maxRequests opts then Inr allow
      else Inr \<lparr>allowed = False,
                retryAfter = Some (if 0 < int ((d - t + 500) div 1000)
                                   then int ((d - t + 500) div 1000)
                                   else window_seconds (windowMs opts))\<rparr>,
      \<lparr>redisClient = True,
       kv = (kv r)(rate_key (ident opts) \<mapsto> \<lparr>cnt = c + 1, expiry = Some d\<rparr>)\<rparr>)"
  using assms
  by (auto simp: checkRateLimit_def getRedisClient_def no_redis_faults_def redis_incr_def
      redis_ttl_def live_def Let_def)

lemma small_div: "0 \<le> (m::int) \<Longrightarrow> m < 1000 \<Longrightarrow> (m + 999) div 1000 = (if m = 0 then 0 else 1)"
proof -
  assume a: "0 \<le> m" "m < 1000"
  show ?thesis
  proof (cases "m = 0")
    case True
    then show ?thesis by simp
  next
    case False
    with a have "1000 \<le> m + 999" "m + 999 < 1000 + 1000" by simp_all
    then have "(m + 999) div 1000 = 1"
      by (intro int_div_pos_eq[where r = "m - 1"]) simp_all
    with False show ?thesis by simp
  qed
qed

lemma window_seconds_ceiling: "window_seconds w = (w + 999) div 1000"
proof -
  have m: "0 \<le> w mod 1000" "w mod 1000 < 1000" by simp_all
  have "(w + 999) div 1000 = w div 1000 + (w mod 1000 + 999) div 1000"
    using div_add1_eq[of w 999 1000] by simp
  also have "\<dots> = w div 1000 + (if w mod 1000 = 0 then 0 else 1)"
    using small_div[OF m] by simp
  finally show ?thesis
    by (simp add: window_seconds_def zdiv_zminus1_eq_if)
qed

lemma window_covers: "0 < w \<Longrightarrow> w \<le> int (nat ((w + 999) div 1000) * 1000)"
proof -
  assume "0 < w"
  then have "0 \<le> (w + 999) div 1000" by (simp add: pos_imp_zdiv_nonneg_iff)
  then have "int (nat ((w + 999) div 1000) * 1000) = (w + 999) div 1000 * 1000" by simp
  moreover have "(w + 999) div 1000 * 1000 = w + 999 - (w + 999) mod 1000"
    by (simp add: minus_mod_eq_div_mult)
  moreover have "(w + 999) mod 1000 < 1000" by simp
  ultimately show ?thesis by linarith
qed

subsection \<open>Calls within one window\<close>

lemma check_trace_length: "length (check_trace f opts ts r) = length ts"
  by (induction ts arbitrary: r) (auto simp: Let_def)

lemma check_trace_in_window:
  assumes "kv r (rate_key (ident opts)) = Some \<lparr>cnt = c, expiry = Some d\<rparr>" "0 < c"
    and "\<forall>u \<in> set ts. u < d" "0 < windowMs opts" "i < length ts"
  shows "kv (snd (check_trace no_redis_faults opts ts r ! i)) (rate_key (ident opts)) =
           Some \<lparr>cnt = c + int i + 1, expiry = Some d\<rparr>
       \<and> (c + int i + 1 \<le> maxRequests opts \<longrightarrow>
            fst (check_trace no_redis_faults opts ts r ! i) = Inr allow)
       \<and> (maxRequests opts < c + int i + 1 \<longrightarrow>
            fst (check_trace no_redis_faults opts ts r ! i) =
              Inr \<lparr>allowed = False,
                   retryAfter = Some (if 0 < int ((d - ts ! i + 500) div 1000)
                                      then int ((d - ts ! i + 500) div 1000)
                                      else window_seconds (windowMs opts))\<rparr>)"
  using assms
proof (induction ts arbitrary: r c i)
  case Nil
  then show ?case by simp
next
  case (Cons u ts)
  from Cons.prems(3) have u: "u < d" by simp
  from Cons.prems(2) have c0: "c \<noteq> 0" by simp
  note step = checkRateLimit_later_hit[OF Cons.prems(1) u c0]
  show ?case
  proof (cases i)
    case 0
    with step show ?thesis
      by (auto simp: Let_def)
  next
    case (Suc j)
    let ?r1 = "snd (checkRateLimit u no_redis_faults opts r)"
    have k1: "kv ?r1 (rate_key (ident opts)) = Some \<lparr>cnt = c + 1, expiry = Some d\<rparr>"
      using step by simp
    have "0 < c + 1" using Cons.prems(2) by simp
    moreover have "\<forall>u \<in> set ts. u < d" using Cons.prems(3) by simp
    moreover have "j < length ts" using Cons.prems(5) Suc by simp
    ultimately have IH:
      "kv (snd (check_trace no_redis_faults opts ts ?r1 ! j)) (rate_key (ident opts)) =
           Some \<lparr>cnt = c + 1 + int j + 1, expiry = Some d\<rparr>
       \<and> (c + 1 + int j + 1 \<le> maxRequests opts \<longrightarrow>
            fst (check_trace no_redis_faults opts ts ?r1 ! j) = Inr allow)
       \<and> (maxRequests opts < c + 1 + int j + 1 \<longrightarrow>
            fst (check_trace no_redis_faults opts ts ?r1 ! j) =
              Inr \<lparr>allowed = False,
                   retryAfter = Some (if 0 < int ((d - ts ! j + 500) div 1000)
                                      then int ((d - ts ! j + 500) div 1000)
                                      else window_seconds (windowMs opts))\<rparr>)"
      using Cons.IH[OF k1 _ _ Cons.prems(4)] by blast
    have "check_trace no_redis_faults opts (u # ts) r ! i =
            check_trace no_redis_faults opts ts ?r1 ! j"
      using Suc by (simp add: Let_def)
    moreover have "c + int i + 1 = c + 1 + int j + 1" using Suc by simp
    moreover have "(u # ts) ! i = ts ! j" using Suc by simp
    ultimately show ?thesis using IH by simp
  qed
qed

text \<open>
  C7: for any identifier, limit \<open>N\<close> and window of \<open>W > 0\<close> milliseconds: when no counter
  is live at the first call, at time \<open>t\<close>, and the next \<open>N\<close> calls come less than \<open>W\<close>
  after it, the first \<open>N\<close> calls are allowed and the \<open>(N+1)\<close>th is denied with a
  \<open>retryAfter\<close> that is greater than 0: the whole seconds left until the deadline
  (rounded to the nearest), or the window's \<open>\<lceil>W / 1000\<rceil>\<close> seconds when less than half
  a second is left. After every one of the calls the counter carries the deadline the
  first call gave it, \<open>t\<close> plus \<open>\<lceil>W / 1000\<rceil>\<close> seconds: no later call extends it. A call
  at or after that deadline starts a new window: the counter is 1 again, with a
  deadline \<open>\<lceil>W / 1000\<rceil>\<close> seconds after that call, which is allowed when \<open>N > 0\<close>.
\<close>

theorem rate_limit_window:
  assumes "live t (kv r (rate_key (ident opts))) = None"
    and "maxRequests opts = int N" "windowMs opts = W" "0 < W"
    and "length ts = N"
    and "\<forall>u \<in> set ts. int u < int t + W"
  shows "(\<forall>i < N. fst (check_trace no_redis_faults opts (t # ts) r ! i) =
                     Inr \<lparr>allowed = True, retryAfter = None\<rparr>)
    \<and> fst (check_trace no_redis_faults opts (t # ts) r ! N) =
        Inr \<lparr>allowed = False,
             retryAfter =
               Some (if 0 < int ((t + nat ((W + 999) div 1000) * 1000 - (t # ts) ! N + 500)
                                   div 1000)
                     then int ((t + nat ((W + 999) div 1000) * 1000 - (t # ts) ! N + 500)
                                div 1000)
                     else (W + 999) div 1000)\<rparr>
    \<and> 0 < (if 0 < int ((t + nat ((W + 999) div 1000) * 1000 - (t # ts) ! N + 500) div 1000)
           then int ((t + nat ((W + 999) div 1000) * 1000 - (t # ts) ! N + 500) div 1000)
           else (W + 999) div 1000)
    \<and> (\<forall>i \<le> N. kv (snd (check_trace no_redis_faults opts (t # ts) r ! i))
                    (rate_key (ident opts)) =
                  Some \<lparr>cnt = int i + 1,
                        expiry = Some (t + nat ((W + 999) div 1000) * 1000)\<rparr>)
    \<and> (\<forall>v \<ge> t + nat ((W + 999) div 1000) * 1000.
          kv (snd (checkRateLimit v no_redis_faults opts
                     (snd (check_trace no_redis_faults opts (t # ts) r ! N))))
             (rate_key (ident opts)) =
            Some \<lparr>cnt = 1, expiry = Some (v + nat ((W + 999) div 1000) * 1000)\<rparr>
          \<and> (0 < N \<longrightarrow>
               fst (checkRateLimit v no_redis_faults opts
                      (snd (check_trace no_redis_faults opts (t # ts) r ! N))) =
                 Inr \<lparr>allowed = True, retryAfter = None\<rparr>))"
proof -
  let ?secs = "(W + 999) div 1000"
  let ?d = "t + nat ?secs * 1000"
  let ?r1 = "snd (checkRateLimit t no_redis_faults opts r)"
  let ?tr = "check_trace no_redis_faults opts (t # ts) r"
  let ?key = "rate_key (ident opts)"
  let ?ra = "\<lambda>u. if 0 < int ((?d - u + 500) div 1000) then int ((?d - u + 500) div 1000)
                  else ?secs"
  have W: "0 < windowMs opts" using assms(3,4) by simp
  have secs: "window_seconds (windowMs opts) = ?secs"
    using assms(3) by (simp add: window_seconds_ceiling)
  have spos: "0 < ?secs" using assms(4) by (simp add: pos_imp_zdiv_pos_iff)
  note first = checkRateLimit_first_hit[OF assms(1) W, unfolded secs]
  have k1: "kv ?r1 ?key = Some \<lparr>cnt = 1, expiry = Some ?d\<rparr>"
    using first by simp
  have inw: "\<forall>u \<in> set ts. u < ?d"
  proof
    fix u assume "u \<in> set ts"
    with assms(6) have "int u < int t + W" by simp
    with window_covers[OF assms(4)] show "u < ?d" by linarith
  qed
  have head: "?tr ! 0 = checkRateLimit t no_redis_faults opts r"
    by (simp add: Let_def)
  have tail: "?tr ! Suc j = check_trace no_redis_faults opts ts ?r1 ! j" for j
    by (simp add: Let_def)
  note rest = check_trace_in_window[OF k1 _ inw W, unfolded secs, simplified]
  have a: "fst (?tr ! i) = Inr \<lparr>allowed = True, retryAfter = None\<rparr>" if "i < N" for i
  proof (cases i)
    case 0
    with that first assms(2) head show ?thesis by (simp add: allow_def)
  next
    case (Suc j)
    with that assms(2,5) rest[of j] tail[of j] show ?thesis by (simp add: allow_def)
  qed
  have b: "fst (?tr ! N) = Inr \<lparr>allowed = False, retryAfter = Some (?ra ((t # ts) ! N))\<rparr>"
  proof (cases N)
    case 0
    with first assms(2) head spos show ?thesis
      by (simp add: ttl_of_full_window)
  next
    case (Suc j)
    with assms(2,5) rest[of j] tail[of j] show ?thesis by simp
  qed
  have pos: "0 < (if 0 < x then x else ?secs)" for x :: int
    using spos by simp
  have b': "0 < ?ra ((t # ts) ! N)"
    by (rule pos)
  have c: "kv (snd (?tr ! i)) ?key = Some \<lparr>cnt = int i + 1, expiry = Some ?d\<rparr>"
    if "i \<le> N" for i
  proof (cases i)
    case 0
    with k1 head show ?thesis by simp
  next
    case (Suc j)
    with that assms(5) rest[of j] tail[of j] show ?thesis by (simp add: add.commute)
  qed
  have d: "kv (snd (checkRateLimit v no_redis_faults opts (snd (?tr ! N)))) ?key =
             Some \<lparr>cnt = 1, expiry = Some (v + nat ?secs * 1000)\<rparr>
           \<and> (0 < N \<longrightarrow> fst (checkRateLimit v no_redis_faults opts (snd (?tr ! N))) =
                 Inr \<lparr>allowed = True, retryAfter = None\<rparr>)"
    if "?d \<le> v" for v
  proof -
    have "live v (kv (snd (?tr ! N)) ?key) = None"
      using c[of N] that by (simp add: live_def)
    from checkRateLimit_first_hit[OF this W, unfolded secs] assms(2) show ?thesis
      by (simp add: allow_def)
  qed
  from a b b' c d show ?thesis by blast
qed

theorem rate_limit_window_witness:
  "map fst (check_trace no_redis_faults \<lparr>maxRequests = 2, windowMs = 1500, ident = ''user:u1''\<rparr>
              [0, 500, 1400] \<lparr>redisClient = False, kv = Map.empty\<rparr>) =
     [Inr \<lparr>allowed = True, retryAfter = None\<rparr>, Inr \<lparr>allowed = True, retryAfter = None\<rparr>,
      Inr \<lparr>allowed = False, retryAfter = Some 1\<rparr>]
   \<and> kv (snd (check_trace no_redis_faults
                 \<lparr>maxRequests = 2, windowMs = 1500, ident = ''user:u1''\<rparr>
                 [0, 500, 1400] \<lparr>redisClient = False, kv = Map.empty\<rparr> ! 2))
        ''rate_limit:user:u1'' = Some \<lparr>cnt = 3, expiry = Some 2000\<rparr>
   \<and> checkRateLimit 2000 no_redis_faults
        \<lparr>maxRequests = 2, windowMs = 1500, ident = ''user:u1''\<rparr>
        (snd (check_trace no_redis_faults
                \<lparr>maxRequests = 2, windowMs = 1500, ident = ''user:u1''\<rparr>
                [0, 500, 1400] \<lparr>redisClient = False, kv = Map.empty\<rparr> ! 2)) =
       (Inr \<lparr>allowed = True, retryAfter = None\<rparr>,
        \<lparr>redisClient = True,
         kv = [''rate_limit:user:u1'' \<mapsto> \<lparr>cnt = 1, expiry = Some 4000\<rparr>]\<rparr>)"
proof -
  let ?o = "\<lparr>maxRequests = 2, windowMs = 1500, ident = ''user:u1''\<rparr>"
  let ?r = "\<lparr>redisClient = False, kv = Map.empty\<rparr>"
  define tr where "tr = check_trace no_redis_faults ?o [0, 500, 1400] ?r"
  have h1: "live 0 (kv ?r (rate_key (ident ?o))) = None"
    by (simp add: live_def)
  have h6: "\<forall>u \<in> set [500, 1400 :: nat]. int u < int 0 + 1500"
    by simp
  note T = rate_limit_window[OF h1 _ _ _ _ h6, of 2]
  from T have 1: "fst (tr ! 0) = Inr \<lparr>allowed = True, retryAfter = None\<rparr>"
    and 2: "fst (tr ! 1) = Inr \<lparr>allowed = True, retryAfter = None\<rparr>"
    and 3: "fst (tr ! 2) = Inr \<lparr>allowed = False, retryAfter = Some 1\<rparr>"
    and 4: "kv (snd (tr ! 2)) ''rate_limit:user:u1'' = Some \<lparr>cnt = 3, expiry = Some 2000\<rparr>"
    unfolding tr_def by (simp_all add: rate_key_def)
  have l: "length tr = 3"
    unfolding tr_def by (simp only: check_trace_length) simp
  have m: "map fst tr =
     [Inr \<lparr>allowed = True, retryAfter = None\<rparr>, Inr \<lparr>allowed = True, retryAfter = None\<rparr>,
      Inr \<lparr>allowed = False, retryAfter = Some 1\<rparr>]"
    using l 1 2 3
    by (intro nth_equalityI) (auto simp: nth_Cons' less_Suc_eq numeral_3_eq_3 numeral_2_eq_2)
  have 5: "checkRateLimit 2000 no_redis_faults ?o (snd (tr ! 2)) =
           (Inr \<lparr>allowed = True, retryAfter = None\<rparr>,
            \<lparr>redisClient = True,
             kv = [''rate_limit:user:u1'' \<mapsto> \<lparr>cnt = 1, expiry = Some 4000\<rparr>]\<rparr>)"
    unfolding tr_def by (simp add: run_defs)
  from m 4 5 show ?thesis
    unfolding tr_def by blast
qed

subsection \<open>Failures of the counter store\<close>

lemma checkRateLimit_never_throws_with_client:
  assumes "redisClient r \<or> \<not> connect_fails f"
  shows "\<exists>res. fst (checkRateLimit t f opts r) = Inr res"
  using assms
  by (auto simp: checkRateLimit_def getRedisClient_def Let_def split: prod.splits)

lemma checkRateLimit_denial_needs_store:
  assumes "fst (checkRateLimit t f opts r) = Inr res" "\<not> allowed res"
  shows "\<not> incr_fails f \<and> \<not> ttl_fails f"
  using assms
  by (auto simp: checkRateLimit_def getRedisClient_def Let_def allow_def
      split: prod.splits if_splits)

lemma checkRateLimit_incr_fails:
  assumes "redisClient r \<or> \<not> connect_fails f" "incr_fails f"
  shows "fst (checkRateLimit t f opts r) = Inr \<lparr>allowed = True, retryAfter = None\<rparr>"
  using assms
  by (auto simp: checkRateLimit_def getRedisClient_def Let_def allow_def)

text \<open>
  C8 fails on the code: the client is fetched on line 14 of \<^verbatim>\<open>rateLimit.ts\<close>, before the
  \<^verbatim>\<open>try\<close> block opens. In a fresh process whose first connect to the store rejects,
  \<open>checkRateLimit\<close> throws instead of answering \<open>allowed = true\<close>, and the purchase
  request is answered with the status 500.
\<close>

theorem connect_failure_not_fail_open:
  "fst (checkRateLimit 0
          \<lparr>connect_fails = True, incr_fails = False, expire_fails = False, ttl_fails = False\<rparr>
          \<lparr>maxRequests = 5, windowMs = 60000, ident = ''user:u1''\<rparr>
          \<lparr>redisClient = False, kv = Map.empty\<rparr>) = Inl ConnectError
   \<and> fst (POST (demo_env\<lparr>user_faults :=
                   \<lparr>connect_fails = True, incr_fails = False, expire_fails = False,
                    ttl_fails = False\<rparr>\<rparr>)
             (demo_request (Some 1) (Some ''u1'') None) demo_world) =
       \<lparr>status = 500, success = False, message = ''Internal server error'', order_field = None,
        headers = []\<rparr>"
  by (simp add: run_defs demo_defs)

theorem connect_failure_not_fail_open_witness:
  "status (fst (POST (demo_env\<lparr>user_faults :=
                   \<lparr>connect_fails = True, incr_fails = False, expire_fails = False,
                    ttl_fails = False\<rparr>\<rparr>)
             (demo_request (Some 1) (Some ''u1'') None) demo_world)) = 500"
  using connect_failure_not_fail_open by simp

subsection \<open>The two tiers\<close>

lemma tier_keys_differ: "rate_key (ip_identifier req) \<noteq> rate_key (user_identifier req' uid)"
  by (simp add: rate_key_def ip_identifier_def user_identifier_def)

text \<open>
  C9 as stated fails: the fixed budget of the IP tier is 10 requests, which is not smaller
  than the 5 the purchase handler passes for the user tier. The tenth request of one
  address within a window, from a user with a fresh counter, passes both tiers.
\<close>

theorem ip_budget_not_smaller_counterexample:
  "\<not> ip_maxRequests < 5
   \<and> fst (rateLimitMiddleware 1000 no_redis_faults no_redis_faults
            (demo_request (Some 1) (Some ''u7'') None) 5 60000 (Some ''u7'')
            \<lparr>redisClient = True,
             kv = [''rate_limit:ip:unknown'' \<mapsto> \<lparr>cnt = 9, expiry = Some 60000\<rparr>]\<rparr>) = Inr None"
  by (simp add: run_defs demo_defs)

text \<open>
  C9, amended: the middleware evaluates the user tier first, against the caller's
  \<open>(maxRequests, windowMs)\<close>. When the user tier denies, the answer is the 429 response
  with the user tier's \<open>retryAfter\<close> (60 when that is 0) and the caller's limit, and the
  counter of the IP tier is left as it was. Only when the user tier allows is the IP tier
  evaluated, against the fixed budget of 10 requests per 60000 ms: a denial there
  answers 429 with the IP tier's \<open>retryAfter\<close> and the limit 10, otherwise the
  middleware answers \<open>null\<close>.
\<close>

theorem two_tier_order:
  assumes "checkRateLimit t fu \<lparr>maxRequests = m, windowMs = wn, ident = user_identifier req uid\<rparr> r
             = (Inr userLimit, r1)"
  shows "(\<not> allowed userLimit \<longrightarrow>
            rateLimitMiddleware t fu fi req m wn uid r =
              (Inr (Some \<lparr>status = 429, success = False,
                           message = ''Rate limit exceeded for user'', order_field = None,
                           headers = [(''Retry-After'', retry_or_60 (retryAfter userLimit)),
                                      (''X-RateLimit-Limit'', m),
                                      (''X-RateLimit-Remaining'', 0)]\<rparr>), r1)
            \<and> kv (snd (rateLimitMiddleware t fu fi req m wn uid r)) (rate_key (ip_identifier req))
                = kv r (rate_key (ip_identifier req)))
     \<and> (allowed userLimit \<longrightarrow>
          rateLimitMiddleware t fu fi req m wn uid r =
            (case checkRateLimit t fi
                    \<lparr>maxRequests = 10, windowMs = 60000, ident = ip_identifier req\<rparr> r1 of
               (Inl x, r2) \<Rightarrow> (Inl x, r2)
             | (Inr ipLimit, r2) \<Rightarrow>
                 if allowed ipLimit then (Inr None, r2)
                 else (Inr (Some \<lparr>status = 429, success = False,
                                   message = ''Rate limit exceeded for IP'', order_field = None,
                                   headers = [(''Retry-After'', retry_or_60 (retryAfter ipLimit)),
                                              (''X-RateLimit-Limit'', 10),
                                              (''X-RateLimit-Remaining'', 0)]\<rparr>), r2)))"
proof (intro conjI impI)
  assume d: "\<not> allowed userLimit"
  with assms
  show "rateLimitMiddleware t fu fi req m wn uid r =
              (Inr (Some \<lparr>status = 429, success = False,
                           message = ''Rate limit exceeded for user'', order_field = None,
                           headers = [(''Retry-After'', retry_or_60 (retryAfter userLimit)),
                                      (''X-RateLimit-Limit'', m),
                                      (''X-RateLimit-Remaining'', 0)]\<rparr>), r1)"
    by (simp add: rateLimitMiddleware_def too_many_def)
  then have "snd (rateLimitMiddleware t fu fi req m wn uid r) = r1" by simp
  moreover have "kv r1 (rate_key (ip_identifier req)) = kv r (rate_key (ip_identifier req))"
    using checkRateLimit_other_key[of "rate_key (ip_identifier req)"
        "\<lparr>maxRequests = m, windowMs = wn, ident = user_identifier req uid\<rparr>" t fu r]
      tier_keys_differ[of req req uid] assms
    by simp
  ultimately
  show "kv (snd (rateLimitMiddleware t fu fi req m wn uid r)) (rate_key (ip_identifier req))
          = kv r (rate_key (ip_identifier req))"
    by simp
next
  assume "allowed userLimit"
  with assms
  show "rateLimitMiddleware t fu fi req m wn uid r =
            (case checkRateLimit t fi
                    \<lparr>maxRequests = 10, windowMs = 60000, ident = ip_identifier req\<rparr> r1 of
               (Inl x, r2) \<Rightarrow> (Inl x, r2)
             | (Inr ipLimit, r2) \<Rightarrow>
                 if allowed ipLimit then (Inr None, r2)
                 else (Inr (Some \<lparr>status = 429, success = False,
                                   message = ''Rate limit exceeded for IP'', order_field = None,
                                   headers = [(''Retry-After'', retry_or_60 (retryAfter ipLimit)),
                                              (''X-RateLimit-Limit'', 10),
                                              (''X-RateLimit-Remaining'', 0)]\<rparr>), r2))"
    by (simp add: rateLimitMiddleware_def too_many_def ip_maxRequests_def ip_windowMs_def
        split: prod.splits sum.splits)
qed

theorem two_tier_order_witness:
  "rateLimitMiddleware 1000 no_redis_faults no_redis_faults
     (demo_request (Some 1) (Some ''u1'') None) 5 60000 (Some ''u1'')
     \<lparr>redisClient = True,
      kv = [''rate_limit:user:u1'' \<mapsto> \<lparr>cnt = 5, expiry = Some 60000\<rparr>]\<rparr> =
     (Inr (Some \<lparr>status = 429, success = False, message = ''Rate limit exceeded for user'',
                  order_field = None,
                  headers = [(''Retry-After'', 59), (''X-RateLimit-Limit'', 5),
                             (''X-RateLimit-Remaining'', 0)]\<rparr>),
      \<lparr>redisClient = True,
       kv = [''rate_limit:user:u1'' \<mapsto> \<lparr>cnt = 6, expiry = Some 60000\<rparr>]\<rparr>)
   \<and> kv (snd (rateLimitMiddleware 1000 no_redis_faults no_redis_faults
                 (demo_request (Some 1) (Some ''u1'') None) 5 60000 (Some ''u1'')
                 \<lparr>redisClient = True,
                  kv = [''rate_limit:user:u1'' \<mapsto> \<lparr>cnt = 5, expiry = Some 60000\<rparr>]\<rparr>))
          ''rate_limit:ip:unknown'' = None"
proof -
  have h: "checkRateLimit 1000 no_redis_faults
             \<lparr>maxRequests = 5, windowMs = 60000,
              ident = user_identifier (demo_request (Some 1) (Some ''u1'') None) (Some ''u1'')\<rparr>
             \<lparr>redisClient = True,
              kv = [''rate_limit:user:u1'' \<mapsto> \<lparr>cnt = 5, expiry = Some 60000\<rparr>]\<rparr> =
           (Inr \<lparr>allowed = False, retryAfter = Some 59\<rparr>,
            \<lparr>redisClient = True,
             kv = [''rate_limit:user:u1'' \<mapsto> \<lparr>cnt = 6, expiry = Some 60000\<rparr>]\<rparr>)"
    by (simp add: run_defs demo_defs)
  from two_tier_order[OF h, of no_redis_faults] show ?thesis
    by (simp add: retry_or_60_def rate_key_def ip_identifier_def client_ip_def demo_defs)
qed

subsection \<open>Rate limiting comes before validation\<close>

lemma checkRateLimit_counts:
  assumes "0 < windowMs opts"
  shows "map_option cnt (kv (snd (checkRateLimit t no_redis_faults opts r)) (rate_key (ident opts)))
           = Some (fst (redis_incr t (kv r) (rate_key (ident opts))))
    \<and> (\<exists>res. fst (checkRateLimit t no_redis_faults opts r) = Inr res
          \<and> (allowed res \<longleftrightarrow> fst (redis_incr t (kv r) (rate_key (ident opts))) \<le> maxRequests opts))"
  using window_seconds_pos[OF assms]
  by (auto simp: checkRateLimit_def getRedisClient_def no_redis_faults_def redis_incr_def
      redis_expire_def live_def Let_def allow_def split: option.splits)

lemma redis_incr_other_key:
  "kv r' k = kv r k \<Longrightarrow> fst (redis_incr t (kv r') k) = fst (redis_incr t (kv r) k)"
  by (simp add: redis_incr_def split: option.splits)

lemma POST_redis_state:
  assumes "body req = Some b"
  shows "redis_state (snd (POST e req w)) =
           snd (rateLimitMiddleware (now e) (user_faults e) (ip_faults e) req 5 60000 (userId b)
                  (redis_state w))"
  using assms
  by (auto simp: POST_def Let_def split: prod.splits sum.splits option.splits)

lemma middleware_counts:
  assumes "0 < wn"
  shows "map_option cnt
           (kv (snd (rateLimitMiddleware t no_redis_faults no_redis_faults req m wn uid r))
              (rate_key (user_identifier req uid)))
           = Some (fst (redis_incr t (kv r) (rate_key (user_identifier req uid))))
    \<and> (fst (redis_incr t (kv r) (rate_key (user_identifier req uid))) \<le> m \<longrightarrow>
          map_option cnt
            (kv (snd (rateLimitMiddleware t no_redis_faults no_redis_faults req m wn uid r))
               (rate_key (ip_identifier req)))
            = Some (fst (redis_incr t (kv r) (rate_key (ip_identifier req)))))
    \<and> (m < fst (redis_incr t (kv r) (rate_key (user_identifier req uid))) \<longrightarrow>
          kv (snd (rateLimitMiddleware t no_redis_faults no_redis_faults req m wn uid r))
             (rate_key (ip_identifier req))
            = kv r (rate_key (ip_identifier req)))"
proof -
  let ?uo = "\<lparr>maxRequests = m, windowMs = wn, ident = user_identifier req uid\<rparr>"
  let ?io = "\<lparr>maxRequests = ip_maxRequests, windowMs = ip_windowMs, ident = ip_identifier req\<rparr>"
  let ?uk = "rate_key (user_identifier req uid)"
  let ?ik = "rate_key (ip_identifier req)"
  obtain ures r1 where u: "checkRateLimit t no_redis_faults ?uo r = (ures, r1)"
    by (cases "checkRateLimit t no_redis_faults ?uo r")
  obtain ires r2 where i: "checkRateLimit t no_redis_faults ?io r1 = (ires, r2)"
    by (cases "checkRateLimit t no_redis_faults ?io r1")
  from checkRateLimit_counts[of ?uo t r] assms u
  obtain ul where ul: "ures = Inr ul" "map_option cnt (kv r1 ?uk) = Some (fst (redis_incr t (kv r) ?uk))"
    "allowed ul \<longleftrightarrow> fst (redis_incr t (kv r) ?uk) \<le> m"
    by auto
  from checkRateLimit_counts[of ?io t r1] i
  obtain il where il: "ires = Inr il" "map_option cnt (kv r2 ?ik) = Some (fst (redis_incr t (kv r1) ?ik))"
    by (auto simp: ip_windowMs_def)
  have k1: "kv r1 ?ik = kv r ?ik"
    using checkRateLimit_other_key[of ?ik ?uo t no_redis_faults r] tier_keys_differ[of req req uid] u
    by simp
  have k2: "kv r2 ?uk = kv r1 ?uk"
    using checkRateLimit_other_key[of ?uk ?io t no_redis_faults r1]
      tier_keys_differ[of req req uid] i
    by simp
  have mw: "snd (rateLimitMiddleware t no_redis_faults no_redis_faults req m wn uid r) =
              (if allowed ul then r2 else r1)"
    using u i ul(1) il(1) by (simp add: rateLimitMiddleware_def)
  show ?thesis
    using mw ul(2,3) il(2) k1 k2 redis_incr_other_key[OF k1, of t]
    by auto
qed

text \<open>
  C10 as stated fails on the key: a request whose body has no \<open>userId\<close> but whose URL
  carries \<^verbatim>\<open>?userId=bob\<close> is rejected with the status 400 after incrementing the counter
  of \<^verbatim>\<open>user:bob\<close>; the counter of the literal fallback \<^verbatim>\<open>user:anonymous\<close> is not touched.
\<close>

theorem fallback_key_counterexample:
  "userId \<lparr>productId = Some 1, userId = None, quantity = None\<rparr> = None
   \<and> status (fst (POST demo_env
                    \<lparr>body = Some \<lparr>productId = Some 1, userId = None, quantity = None\<rparr>,
                     query_userId = Some ''bob'', x_forwarded_for = None, x_real_ip = None\<rparr>
                    demo_world)) = 400
   \<and> kv (redis_state (snd (POST demo_env
                    \<lparr>body = Some \<lparr>productId = Some 1, userId = None, quantity = None\<rparr>,
                     query_userId = Some ''bob'', x_forwarded_for = None, x_real_ip = None\<rparr>
                    demo_world))) ''rate_limit:user:anonymous'' = None
   \<and> kv (redis_state (snd (POST demo_env
                    \<lparr>body = Some \<lparr>productId = Some 1, userId = None, quantity = None\<rparr>,
                     query_userId = Some ''bob'', x_forwarded_for = None, x_real_ip = None\<rparr>
                    demo_world))) ''rate_limit:user:bob'' = Some \<lparr>cnt = 1, expiry = Some 60000\<rparr>"
  by (simp add: run_defs demo_defs)

text \<open>
  C10, amended: for every purchase request whose body parses, with a working counter
  store, the handler evaluates the rate limiter before it validates \<open>productId\<close> and
  \<open>userId\<close>. Whatever the body holds (so also for a request that is then rejected with
  400), the run increments the user-tier counter, keyed under the body's \<open>userId\<close> when
  that is a non-empty string, else under the \<open>userId\<close> query parameter when that is
  non-empty, else under the literal \<open>anonymous\<close>; it increments the IP-tier counter
  when the user tier allows (post-increment count at most 5), and leaves it as it was
  when the user tier denies.
\<close>

theorem rate_limit_before_validation:
  assumes "body req = Some b"
    and "user_faults e = no_redis_faults" "ip_faults e = no_redis_faults"
  shows "map_option cnt (kv (redis_state (snd (POST e req w)))
                           (rate_key (user_identifier req (userId b))))
           = Some (fst (redis_incr (now e) (kv (redis_state w))
                          (rate_key (user_identifier req (userId b)))))
    \<and> (fst (redis_incr (now e) (kv (redis_state w))
               (rate_key (user_identifier req (userId b)))) \<le> 5 \<longrightarrow>
          map_option cnt (kv (redis_state (snd (POST e req w))) (rate_key (ip_identifier req)))
            = Some (fst (redis_incr (now e) (kv (redis_state w)) (rate_key (ip_identifier req)))))
    \<and> (5 < fst (redis_incr (now e) (kv (redis_state w))
                   (rate_key (user_identifier req (userId b)))) \<longrightarrow>
          kv (redis_state (snd (POST e req w))) (rate_key (ip_identifier req))
            = kv (redis_state w) (rate_key (ip_identifier req)))
    \<and> (\<forall>u. userId b = Some u \<and> u \<noteq> [] \<longrightarrow>
          rate_key (user_identifier req (userId b)) = ''rate_limit:user:'' @ u)
    \<and> (\<forall>u. \<not> truthy_str (userId b) \<and> query_userId req = Some u \<and> u \<noteq> [] \<longrightarrow>
          rate_key (user_identifier req (userId b)) = ''rate_limit:user:'' @ u)
    \<and> (\<not> truthy_str (userId b) \<and> \<not> truthy_str (query_userId req) \<longrightarrow>
          rate_key (user_identifier req (userId b)) = ''rate_limit:user:anonymous'')"
proof -
  have keys:
    "(\<forall>u. userId b = Some u \<and> u \<noteq> [] \<longrightarrow>
          rate_key (user_identifier req (userId b)) = ''rate_limit:user:'' @ u)
    \<and> (\<forall>u. \<not> truthy_str (userId b) \<and> query_userId req = Some u \<and> u \<noteq> [] \<longrightarrow>
          rate_key (user_identifier req (userId b)) = ''rate_limit:user:'' @ u)
    \<and> (\<not> truthy_str (userId b) \<and> \<not> truthy_str (query_userId req) \<longrightarrow>
          rate_key (user_identifier req (userId b)) = ''rate_limit:user:anonymous'')"
    by (auto simp: rate_key_def user_identifier_def finalUserId_def truthy_str_def
        split: option.splits)
  from middleware_counts[of 60000 "now e" req 5 "userId b" "redis_state w"]
    POST_redis_state[OF assms(1), of e w] assms(2,3) keys
  show ?thesis by simp
qed

theorem rate_limit_before_validation_witness:
  "status (fst (POST demo_env (demo_request None None None) demo_world)) = 400
   \<and> map_option cnt (kv (redis_state (snd (POST demo_env (demo_request None None None) demo_world)))
                       ''rate_limit:user:anonymous'') = Some 1
   \<and> map_option cnt (kv (redis_state (snd (POST demo_env (demo_request None None None) demo_world)))
                       ''rate_limit:ip:unknown'') = Some 1"
proof -
  have b: "body (demo_request None None None) =
             Some \<lparr>productId = None, userId = None, quantity = None\<rparr>"
    by (simp add: demo_defs)
  have f: "user_faults demo_env = no_redis_faults" "ip_faults demo_env = no_redis_faults"
    by (simp_all add: demo_defs)
  have s: "status (fst (POST demo_env (demo_request None None None) demo_world)) = 400"
    by (simp add: run_defs demo_defs)
  from rate_limit_before_validation[OF b f, of demo_world] s show ?thesis
    by (simp add: demo_defs rate_key_def user_identifier_def finalUserId_def ip_identifier_def
        client_ip_def redis_incr_def live_def truthy_str_def)
qed

end
